theory Spec2Isabelle
  imports Main "HOL-Library.Word" "HOL-Library.Multiset" "HOL-Library.Product_Lexorder"
begin

section \<open>Values of the program\<close>

text \<open>
  A Python \<open>str\<close> is a sequence of code points (numbers below \<open>0x110000\<close>, lone
  surrogates included); \<open>bytes\<close> is a sequence of 8-bit words.
\<close>

type_synonym pystr = "nat list"
type_synonym byte = "8 word"

definition ascii :: "string \<Rightarrow> pystr" where
  "ascii s = map of_char s"

definition wf_str :: "pystr \<Rightarrow> bool" where
  "wf_str s = list_all (\<lambda>c. c < 0x110000) s"

text \<open>A code point from \<open>0xD800\<close> to \<open>0xDFFF\<close> in a \<open>str\<close> is a lone surrogate.\<close>

definition has_surrogate :: "pystr \<Rightarrow> bool" where
  "has_surrogate s = list_ex (\<lambda>c. 0xD800 \<le> c \<and> c \<le> 0xDFFF) s"

text \<open>
  The exceptions the program meets. \<open>NotFound\<close> is the abort of \<open>get_or_404\<close>; the
  others are Python exceptions, which reach the client as a server error unless a
  handler of the program catches them.
\<close>

datatype exn =
  NotFound
  | AttributeError
  | UnicodeEncodeError
  | UnicodeDecodeError
  | BinasciiError
  | InvalidToken

text \<open>
  What \<open>request.json\<close> yields: the Python value of a JSON document. A float is
  represented by whether it is non-zero, the one thing this program looks at; a dict
  by the list of its items, one for each key.
\<close>

datatype pyval =
  PNone
  | PBool bool
  | PInt int
  | PFloat bool
  | PStr pystr
  | PList "pyval list"
  | PDict "(pystr \<times> pyval) list"

text \<open>Python truthiness, as \<open>not text\<close> tests it.\<close>

fun truthy :: "pyval \<Rightarrow> bool" where
  "truthy PNone = False"
| "truthy (PBool b) = b"
| "truthy (PInt i) = (i \<noteq> 0)"
| "truthy (PFloat nz) = nz"
| "truthy (PStr s) = (s \<noteq> [])"
| "truthy (PList xs) = (xs \<noteq> [])"
| "truthy (PDict kvs) = (kvs \<noteq> [])"

text \<open>\<open>data.get(key, default)\<close>: only a dict has the method.\<close>

fun py_get :: "pyval \<Rightarrow> pystr \<Rightarrow> pyval \<Rightarrow> exn + pyval" where
  "py_get (PDict kvs) k d = Inr (case map_of kvs k of None \<Rightarrow> d | Some v \<Rightarrow> v)"
| "py_get _ k d = Inl AttributeError"

section \<open>UTF-8\<close>

text \<open>
  \<open>str.encode('utf-8')\<close> in strict mode: one to four bytes per code point, and
  UnicodeEncodeError on a surrogate (\<open>0xD800\<close> to \<open>0xDFFF\<close>).
\<close>

definition utf8_char :: "nat \<Rightarrow> nat list option" where
  "utf8_char c =
     (if c < 0x80 then Some [c]
      else if c < 0x800 then Some [0xC0 + c div 64, 0x80 + c mod 64]
      else if c < 0x10000 then
        (if 0xD800 \<le> c \<and> c \<le> 0xDFFF then None
         else Some [0xE0 + c div 4096, 0x80 + c div 64 mod 64, 0x80 + c mod 64])
      else if c < 0x110000 then
        Some [0xF0 + c div 262144, 0x80 + c div 4096 mod 64, 0x80 + c div 64 mod 64,
              0x80 + c mod 64]
      else None)"

fun utf8_encode :: "pystr \<Rightarrow> nat list option" where
  "utf8_encode [] = Some []"
| "utf8_encode (c # cs) =
     (case utf8_char c of
        None \<Rightarrow> None
      | Some bs \<Rightarrow> (case utf8_encode cs of None \<Rightarrow> None | Some rest \<Rightarrow> Some (bs @ rest)))"

definition str_encode :: "pystr \<Rightarrow> exn + byte list" where
  "str_encode s =
     (case utf8_encode s of
        None \<Rightarrow> Inl UnicodeEncodeError
      | Some bs \<Rightarrow> Inr (map of_nat bs))"

text \<open>
  \<open>bytes.decode('utf-8')\<close> in strict mode: shortest form only, no surrogates, nothing
  above \<open>0x10FFFF\<close>, no truncated sequence.
\<close>

definition cont :: "nat \<Rightarrow> bool" where
  "cont b = (0x80 \<le> b \<and> b \<le> 0xBF)"

fun utf8_decode :: "nat list \<Rightarrow> pystr option" where
  "utf8_decode [] = Some []"
| "utf8_decode (b0 # bs) =
     (if b0 < 0x80 then map_option ((#) b0) (utf8_decode bs)
      else if 0xC2 \<le> b0 \<and> b0 \<le> 0xDF then
        (case bs of
           b1 # r \<Rightarrow>
             if cont b1
             then map_option ((#) ((b0 - 0xC0) * 64 + (b1 - 0x80))) (utf8_decode r)
             else None
         | _ \<Rightarrow> None)
      else if 0xE0 \<le> b0 \<and> b0 \<le> 0xEF then
        (case bs of
           b1 # b2 # r \<Rightarrow>
             if (if b0 = 0xE0 then 0xA0 else 0x80) \<le> b1
                \<and> b1 \<le> (if b0 = 0xED then 0x9F else 0xBF) \<and> cont b2
             then map_option
                    ((#) ((b0 - 0xE0) * 4096 + (b1 - 0x80) * 64 + (b2 - 0x80)))
                    (utf8_decode r)
             else None
         | _ \<Rightarrow> None)
      else if 0xF0 \<le> b0 \<and> b0 \<le> 0xF4 then
        (case bs of
           b1 # b2 # b3 # r \<Rightarrow>
             if (if b0 = 0xF0 then 0x90 else 0x80) \<le> b1
                \<and> b1 \<le> (if b0 = 0xF4 then 0x8F else 0xBF) \<and> cont b2 \<and> cont b3
             then map_option
                    ((#) ((b0 - 0xF0) * 262144 + (b1 - 0x80) * 4096 + (b2 - 0x80) * 64
                          + (b3 - 0x80)))
                    (utf8_decode r)
             else None
         | _ \<Rightarrow> None)
      else None)"

definition bytes_decode :: "byte list \<Rightarrow> exn + pystr" where
  "bytes_decode bs =
     (case utf8_decode (map unat bs) of
        None \<Rightarrow> Inl UnicodeDecodeError
      | Some s \<Rightarrow> Inr s)"

section \<open>Base64\<close>

text \<open>
  \<open>base64.b64encode\<close> is \<open>binascii.b2a_base64\<close> without the newline: three bytes
  become four characters of the table, and a last group of one or two bytes is padded
  with \<open>=\<close>.
\<close>

definition table_b2a_base64 :: "nat list" where
  "table_b2a_base64 =
     map of_char ''ABCDEFGHIJKLMNOPQRSTUVWXYZabcdefghijklmnopqrstuvwxyz0123456789+/''"

definition BASE64_PAD :: nat where
  "BASE64_PAD = of_char CHR ''=''"

definition b2a :: "nat \<Rightarrow> nat" where
  "b2a i = table_b2a_base64 ! (i mod 64)"

fun b2a_base64 :: "nat list \<Rightarrow> nat list" where
  "b2a_base64 [] = []"
| "b2a_base64 [x] = [b2a (x div 4), b2a (x mod 4 * 16), BASE64_PAD, BASE64_PAD]"
| "b2a_base64 [x, y] =
     [b2a (x div 4), b2a (x mod 4 * 16 + y div 16), b2a (y mod 16 * 4), BASE64_PAD]"
| "b2a_base64 (x # y # z # r) =
     b2a (x div 4) # b2a (x mod 4 * 16 + y div 16) # b2a (y mod 16 * 4 + z div 64)
       # b2a (z mod 64) # b2a_base64 r"

definition b64encode :: "byte list \<Rightarrow> byte list" where
  "b64encode bs = map of_nat (b2a_base64 (map unat bs))"

text \<open>
  \<open>base64.b64decode\<close> with its default \<open>validate=False\<close> is
  \<open>binascii.a2b_base64\<close> in non-strict mode: a character outside the table is
  skipped, padding that completes a group ends the input, and the bits a last
  character carries beyond the whole bytes are dropped unchecked. It raises
  \<open>binascii.Error\<close> only when the input ends inside a group.
\<close>

definition a2b :: "nat \<Rightarrow> nat option" where
  "a2b ch =
     (if of_char CHR ''A'' \<le> ch \<and> ch \<le> of_char CHR ''Z'' then Some (ch - of_char CHR ''A'')
      else if of_char CHR ''a'' \<le> ch \<and> ch \<le> of_char CHR ''z''
        then Some (ch - of_char CHR ''a'' + 26)
      else if of_char CHR ''0'' \<le> ch \<and> ch \<le> of_char CHR ''9''
        then Some (ch - of_char CHR ''0'' + 52)
      else if ch = of_char CHR ''+'' then Some 62
      else if ch = of_char CHR ''/'' then Some 63
      else None)"

text \<open>
  The loop of \<open>a2b_base64\<close>: \<open>quad_pos\<close> is the position in the group of four,
  \<open>leftchar\<close> the bits left over from the characters read, \<open>pads\<close> the padding
  characters seen since the last character of the table.
\<close>

fun a2b_base64 :: "nat \<Rightarrow> nat \<Rightarrow> nat \<Rightarrow> nat list \<Rightarrow> nat list option" where
  "a2b_base64 quad_pos leftchar pads [] = (if quad_pos \<noteq> 0 then None else Some [])"
| "a2b_base64 quad_pos leftchar pads (this_ch # rest) =
     (if this_ch = BASE64_PAD then
        (if quad_pos \<ge> 2 \<and> quad_pos + (pads + 1) \<ge> 4 then Some []
         else a2b_base64 quad_pos leftchar (if quad_pos \<ge> 2 then pads + 1 else pads) rest)
      else
        (case a2b this_ch of
           None \<Rightarrow> a2b_base64 quad_pos leftchar pads rest
         | Some v \<Rightarrow>
             if quad_pos = 0 then a2b_base64 1 v 0 rest
             else if quad_pos = 1 then
               map_option ((#) ((leftchar * 4 + v div 16) mod 256))
                 (a2b_base64 2 (v mod 16) 0 rest)
             else if quad_pos = 2 then
               map_option ((#) ((leftchar * 16 + v div 4) mod 256))
                 (a2b_base64 3 (v mod 4) 0 rest)
             else
               map_option ((#) ((leftchar * 64 + v) mod 256)) (a2b_base64 0 0 0 rest)))"

definition b64decode :: "byte list \<Rightarrow> exn + byte list" where
  "b64decode bs =
     (case a2b_base64 0 0 0 (map unat bs) of
        None \<Rightarrow> Inl BinasciiError
      | Some out \<Rightarrow> Inr (map of_nat out))"

section \<open>The cipher\<close>

text \<open>
  \<open>cipher = Fernet(ENCRYPTION_KEY)\<close> comes from the \<open>cryptography\<close> package and is
  a parameter here. \<open>fernet_encrypt\<close> is \<open>Fernet.encrypt\<close> with what it draws from
  the system made explicit (the clock reading and the 16 random bytes);
  \<open>fernet_decrypt\<close> is \<open>Fernet.decrypt\<close>, \<open>None\<close> when it raises \<open>InvalidToken\<close>.
\<close>

type_synonym entropy = "nat \<times> byte list"

record cipher =
  fernet_encrypt :: "byte list \<Rightarrow> entropy \<Rightarrow> byte list"
  fernet_decrypt :: "byte list \<Rightarrow> byte list option"

text \<open>
  What the package documents of \<open>encrypt\<close> and \<open>decrypt\<close> under one key, at one
  message: the token is not empty, and decrypting it gives the message back.
\<close>

definition fernet_round_trip :: "cipher \<Rightarrow> entropy \<Rightarrow> byte list \<Rightarrow> bool" where
  "fernet_round_trip ciph e data \<longleftrightarrow>
     fernet_encrypt ciph data e \<noteq> []
     \<and> fernet_decrypt ciph (fernet_encrypt ciph data e) = Some data"

definition sentinel :: pystr where
  "sentinel = ascii ''[Decryption Error]''"

text \<open>
  \<open>encrypt_text(text)\<close>. A falsy value gives the empty string; a truthy value that
  is not a string has no \<open>encode\<close>.
\<close>

definition encrypt_text :: "cipher \<Rightarrow> entropy \<Rightarrow> pyval \<Rightarrow> exn + pystr" where
  "encrypt_text ciph e text =
     (if \<not> truthy text then Inr []
      else
        (case text of
           PStr s \<Rightarrow>
             (case str_encode s of
                Inl x \<Rightarrow> Inl x
              | Inr bs \<Rightarrow> bytes_decode (b64encode (fernet_encrypt ciph bs e)))
         | _ \<Rightarrow> Inl AttributeError))"

text \<open>The body of the \<open>try\<close> in \<open>decrypt_text\<close>.\<close>

definition decrypt_try :: "cipher \<Rightarrow> pystr \<Rightarrow> exn + pystr" where
  "decrypt_try ciph encrypted_text =
     (case str_encode encrypted_text of
        Inl x \<Rightarrow> Inl x
      | Inr bs \<Rightarrow>
          (case b64decode bs of
             Inl x \<Rightarrow> Inl x
           | Inr encrypted \<Rightarrow>
               (case fernet_decrypt ciph encrypted of
                  None \<Rightarrow> Inl InvalidToken
                | Some decrypted \<Rightarrow> bytes_decode decrypted)))"

text \<open>
  \<open>decrypt_text(encrypted_text)\<close>: the result and the lines it prints (one
  \<open>Decryption error\<close> line per exception caught, represented by the exception).
\<close>

definition decrypt_text :: "cipher \<Rightarrow> pystr \<Rightarrow> pystr \<times> exn list" where
  "decrypt_text ciph encrypted_text =
     (if encrypted_text = [] then ([], [])
      else
        (case decrypt_try ciph encrypted_text of
           Inr decrypted \<Rightarrow> (decrypted, [])
         | Inl e \<Rightarrow> (sentinel, [e])))"

section \<open>Notes and their views\<close>

text \<open>
  A \<open>datetime\<close> holds year, month, day, hour, minute, second and microsecond, and
  two of them compare field by field from the left.
\<close>

type_synonym datetime = "nat \<times> nat \<times> nat \<times> nat \<times> nat \<times> nat \<times> nat"

fun zero_pad :: "nat \<Rightarrow> nat \<Rightarrow> pystr" where
  "zero_pad 0 n = []"
| "zero_pad (Suc w) n = zero_pad w (n div 10) @ [of_char CHR ''0'' + n mod 10]"

text \<open>\<open>strftime('%Y-%m-%d %H:%M:%S')\<close>, for a year of four digits.\<close>

fun strftime :: "datetime \<Rightarrow> pystr" where
  "strftime (year, month, day, hour, minute, second, microsecond) =
     zero_pad 4 year @ ascii ''-'' @ zero_pad 2 month @ ascii ''-'' @ zero_pad 2 day
       @ ascii '' '' @ zero_pad 2 hour @ ascii '':'' @ zero_pad 2 minute @ ascii '':''
       @ zero_pad 2 second"

text \<open>A row of the table \<open>note\<close>; no column is ever NULL in a row the program writes.\<close>

record Note =
  id_n :: int
  title_encrypted :: pystr
  content_encrypted :: pystr
  timestamp :: datetime

text \<open>The dict \<open>to_dict\<close> returns.\<close>

record view =
  id_v :: int
  title :: pystr
  content :: pystr
  timestamp_v :: pystr

text \<open>\<open>Note.to_dict\<close>, with the lines its two decryptions print.\<close>

definition to_dict :: "cipher \<Rightarrow> Note \<Rightarrow> view \<times> exn list" where
  "to_dict ciph self =
     (\<lparr>id_v = id_n self,
       title = fst (decrypt_text ciph (title_encrypted self)),
       content = fst (decrypt_text ciph (content_encrypted self)),
       timestamp_v = strftime (timestamp self)\<rparr>,
      snd (decrypt_text ciph (title_encrypted self))
        @ snd (decrypt_text ciph (content_encrypted self)))"

text \<open>
  What a request takes from outside the program: the clock (\<open>datetime.utcnow()\<close>),
  what the cipher draws for the title and for the content, and, for an insert, the
  primary key the database assigns.
\<close>

record request_env =
  utcnow :: datetime
  entropy_title :: entropy
  entropy_content :: entropy
  new_id :: int

text \<open>\<open>encrypt_text(data.get(key, default))\<close>.\<close>

definition encrypt_field :: "cipher \<Rightarrow> entropy \<Rightarrow> pyval \<Rightarrow> pystr \<Rightarrow> pyval \<Rightarrow> exn + pystr" where
  "encrypt_field ciph e data key dflt =
     (case py_get data key dflt of
        Inl x \<Rightarrow> Inl x
      | Inr text \<Rightarrow> encrypt_text ciph e text)"

text \<open>
  \<open>Note.from_dict\<close>: the two encrypted columns of the new row (its id and timestamp
  are set at the insert).
\<close>

definition from_dict :: "cipher \<Rightarrow> request_env \<Rightarrow> pyval \<Rightarrow> exn + pystr \<times> pystr" where
  "from_dict ciph env data =
     (case encrypt_field ciph (entropy_title env) data (ascii ''title'')
             (PStr (ascii ''Untitled'')) of
        Inl x \<Rightarrow> Inl x
      | Inr t \<Rightarrow>
          (case encrypt_field ciph (entropy_content env) data (ascii ''content'') (PStr []) of
             Inl x \<Rightarrow> Inl x
           | Inr c \<Rightarrow> Inr (t, c)))"

section \<open>The routes\<close>

text \<open>
  The table is the list of its rows in insertion order. A route returns its response
  (or the exception that ends the request), the table afterwards, and the lines
  printed. An exception leaves the table as it was: nothing was committed.
\<close>

text \<open>
  \<open>Note.query.order_by(Note.timestamp.desc()).all()\<close>: the rows of the table, each
  once, with timestamps descending. The query names no other sort key, so the order
  of rows with equal timestamps is the database's choice.
\<close>

definition order_by_timestamp_desc :: "Note list \<Rightarrow> Note list \<Rightarrow> bool" where
  "order_by_timestamp_desc st notes \<longleftrightarrow>
     mset notes = mset st \<and> sorted_wrt (\<lambda>a b. timestamp a \<ge> timestamp b) notes"

text \<open>\<open>get_notes\<close>, given the rows \<open>notes\<close> the query returned.\<close>

definition get_notes :: "cipher \<Rightarrow> Note list \<Rightarrow> view list \<times> exn list" where
  "get_notes ciph notes =
     (map (\<lambda>note. fst (to_dict ciph note)) notes,
      concat (map (\<lambda>note. snd (to_dict ciph note)) notes))"

definition create_note ::
  "cipher \<Rightarrow> request_env \<Rightarrow> pyval \<Rightarrow> Note list \<Rightarrow> (exn + view) \<times> Note list \<times> exn list" where
  "create_note ciph env data st =
     (case from_dict ciph env data of
        Inl x \<Rightarrow> (Inl x, st, [])
      | Inr (t, c) \<Rightarrow>
          (let note = \<lparr>id_n = new_id env, title_encrypted = t, content_encrypted = c,
                       timestamp = utcnow env\<rparr>
           in (Inr (fst (to_dict ciph note)), st @ [note], snd (to_dict ciph note))))"

definition update_note ::
  "cipher \<Rightarrow> request_env \<Rightarrow> int \<Rightarrow> pyval \<Rightarrow> Note list \<Rightarrow> (exn + view) \<times> Note list \<times> exn list"
  where
  "update_note ciph env note_id data st =
     (case find (\<lambda>n. id_n n = note_id) st of
        None \<Rightarrow> (Inl NotFound, st, [])
      | Some note \<Rightarrow>
          (case encrypt_field ciph (entropy_title env) data (ascii ''title'')
                  (PStr (ascii ''Untitled'')) of
             Inl x \<Rightarrow> (Inl x, st, [])
           | Inr t \<Rightarrow>
               (case encrypt_field ciph (entropy_content env) data (ascii ''content'')
                       (PStr []) of
                  Inl x \<Rightarrow> (Inl x, st, [])
                | Inr c \<Rightarrow>
                    (let note' = note\<lparr>title_encrypted := t, content_encrypted := c,
                                      timestamp := utcnow env\<rparr>
                     in (Inr (fst (to_dict ciph note')),
                         map (\<lambda>n. if id_n n = note_id
                                   then n\<lparr>title_encrypted := t, content_encrypted := c,
                                          timestamp := utcnow env\<rparr>
                                   else n) st,
                         snd (to_dict ciph note'))))))"

definition delete_note :: "int \<Rightarrow> Note list \<Rightarrow> (exn + unit) \<times> Note list" where
  "delete_note note_id st =
     (case find (\<lambda>n. id_n n = note_id) st of
        None \<Rightarrow> (Inl NotFound, st)
      | Some note \<Rightarrow> (Inr (), filter (\<lambda>n. id_n n \<noteq> note_id) st))"

text \<open>
  The tables the routes can produce from the empty one. The database gives an insert
  a primary key no row has.
\<close>

inductive reachable :: "cipher \<Rightarrow> Note list \<Rightarrow> bool" for ciph :: cipher where
  empty: "reachable ciph []"
| created:
    "reachable ciph st \<Longrightarrow> new_id env \<notin> id_n ` set st
       \<Longrightarrow> create_note ciph env data st = (r, st', out) \<Longrightarrow> reachable ciph st'"
| updated:
    "reachable ciph st \<Longrightarrow> update_note ciph env note_id data st = (r, st', out)
       \<Longrightarrow> reachable ciph st'"
| deleted:
    "reachable ciph st \<Longrightarrow> delete_note note_id st = (r', st') \<Longrightarrow> reachable ciph st'"

section \<open>A stand-in for the cipher\<close>

text \<open>
  The theorems below hold for any cipher. To instantiate them at concrete inputs this
  section gives the parameter a value with the layout of a Fernet token (a version
  byte \<open>0x80\<close>, the time in 8 bytes, the 16 random bytes, the padded message in blocks
  of 16, a tag of 32 bytes, all in URL-safe base64) and no cryptography: the message
  is left in the clear and the tag is a checksum. It says nothing about the
  package's security.
\<close>

definition urlsafe_b64encode :: "byte list \<Rightarrow> byte list" where
  "urlsafe_b64encode s =
     map (\<lambda>b. if b = of_char CHR ''+'' then of_char CHR ''-''
              else if b = of_char CHR ''/'' then of_char CHR ''_'' else b) (b64encode s)"

definition urlsafe_b64decode :: "byte list \<Rightarrow> exn + byte list" where
  "urlsafe_b64decode s =
     b64decode
       (map (\<lambda>b. if b = of_char CHR ''-'' then of_char CHR ''+''
                else if b = of_char CHR ''_'' then of_char CHR ''/'' else b) s)"

definition pkcs7_pad :: "byte list \<Rightarrow> byte list" where
  "pkcs7_pad data =
     data @ replicate (16 - length data mod 16) (of_nat (16 - length data mod 16))"

definition pkcs7_unpad :: "byte list \<Rightarrow> byte list option" where
  "pkcs7_unpad padded =
     (if padded = [] \<or> length padded mod 16 \<noteq> 0 then None
      else if unat (last padded) = 0 \<or> unat (last padded) > 16 then None
      else if drop (length padded - unat (last padded)) padded
              \<noteq> replicate (unat (last padded)) (last padded) then None
      else Some (take (length padded - unat (last padded)) padded))"

definition stub_tag :: "byte list \<Rightarrow> byte list" where
  "stub_tag body = replicate 32 (sum_list body)"

definition stub_encrypt :: "byte list \<Rightarrow> entropy \<Rightarrow> byte list" where
  "stub_encrypt data e =
     (let body = [0x80] @ map (\<lambda>i. of_nat (fst e div 256 ^ i)) [7, 6, 5, 4, 3, 2, 1, 0]
                     @ snd e @ pkcs7_pad data
      in urlsafe_b64encode (body @ stub_tag body))"

definition stub_decrypt :: "byte list \<Rightarrow> byte list option" where
  "stub_decrypt token =
     (case urlsafe_b64decode token of
        Inl x \<Rightarrow> None
      | Inr data \<Rightarrow>
          if length data < 73 \<or> hd data \<noteq> 0x80 then None
          else if drop (length data - 32) data \<noteq> stub_tag (take (length data - 32) data)
            then None
          else pkcs7_unpad (drop 25 (take (length data - 32) data)))"

definition stub_fernet :: cipher where
  "stub_fernet = \<lparr>fernet_encrypt = stub_encrypt, fernet_decrypt = stub_decrypt\<rparr>"

definition stub_entropy :: entropy where
  "stub_entropy = (1762250000, [1, 2, 3, 4, 5, 6, 7, 8, 9, 10, 11, 12, 13, 14, 15, 16])"

definition stub_env :: request_env where
  "stub_env = \<lparr>utcnow = (2026, 11, 4, 9, 59, 0, 0), entropy_title = stub_entropy,
                entropy_content = stub_entropy, new_id = 1\<rparr>"

text \<open>The ciphertext of \<open>hi\<close> under the stand-in.\<close>

definition sample_ciphertext :: pystr where
  "sample_ciphertext =
     (case encrypt_text stub_fernet stub_entropy (PStr (ascii ''hi'')) of
        Inl x \<Rightarrow> []
      | Inr c \<Rightarrow> c)"

section \<open>Arithmetic of the base-64 digits of a code point\<close>

lemma div4096: "(c::nat) div 4096 = c div 64 div 64"
  using div_mult2_eq [of c 64 64] by simp

lemma div262144: "(c::nat) div 262144 = c div 64 div 64 div 64"
  using div_mult2_eq [of c 4096 64] by (simp add: div4096)

lemma three_val: "(c::nat) div 4096 * 4096 + c div 64 mod 64 * 64 + c mod 64 = c"
proof -
  define a where "a = c mod 64"
  define q1 where "q1 = c div 64"
  define b where "b = q1 mod 64"
  define q2 where "q2 = q1 div 64"
  have 1: "c = q1 * 64 + a" by (simp add: a_def q1_def)
  have 2: "q1 = q2 * 64 + b" by (simp add: b_def q2_def)
  have "q2 * 4096 + b * 64 + a = c" unfolding 1 2 by simp
  then show ?thesis by (simp add: div4096 a_def b_def q1_def q2_def)
qed

lemma four_val: "(c::nat) div 262144 * 262144 + c div 4096 mod 64 * 4096 + c div 64 mod 64 * 64 + c mod 64 = c"
proof -
  define a where "a = c mod 64"
  define q1 where "q1 = c div 64"
  define b where "b = q1 mod 64"
  define q2 where "q2 = q1 div 64"
  define d where "d = q2 mod 64"
  define q3 where "q3 = q2 div 64"
  have 1: "c = q1 * 64 + a" by (simp add: a_def q1_def)
  have 2: "q1 = q2 * 64 + b" by (simp add: b_def q2_def)
  have 3: "q2 = q3 * 64 + d" by (simp add: d_def q3_def)
  have "q3 * 262144 + d * 4096 + b * 64 + a = c" unfolding 1 2 3 by simp
  then show ?thesis by (simp add: div4096 div262144 a_def b_def d_def q1_def q2_def q3_def)
qed

lemma three_lo: "0x800 \<le> (c::nat) \<Longrightarrow> c div 4096 = 0 \<Longrightarrow> 0x20 \<le> c div 64 mod 64"
  using three_val [of c] by simp

lemma three_hi: "\<not> (0xD800 \<le> (c::nat) \<and> c \<le> 0xDFFF) \<Longrightarrow> c div 4096 = 13 \<Longrightarrow> c div 64 mod 64 \<le> 0x1F"
proof -
  assume a: "\<not> (0xD800 \<le> (c::nat) \<and> c \<le> 0xDFFF)" "c div 4096 = 13"
  have "c mod 64 < 64" by simp
  with a three_val [of c] show ?thesis by linarith
qed

lemma four_lo: "0x10000 \<le> (c::nat) \<Longrightarrow> c div 262144 = 0 \<Longrightarrow> 0x10 \<le> c div 4096 mod 64"
proof -
  assume a: "0x10000 \<le> (c::nat)" "c div 262144 = 0"
  have "c mod 64 < 64" "c div 64 mod 64 < 64" by simp_all
  with a four_val [of c] show ?thesis by linarith
qed

lemma four_hi: "(c::nat) < 0x110000 \<Longrightarrow> c div 262144 = 4 \<Longrightarrow> c div 4096 mod 64 \<le> 0xF"
  using four_val [of c] by linarith

lemma three_top: "(c::nat) < 0x10000 \<Longrightarrow> c div 4096 \<le> 15"
  by simp
lemma four_top: "(c::nat) < 0x110000 \<Longrightarrow> c div 262144 \<le> 4"
  by simp
lemma two_lo: "0x80 \<le> (c::nat) \<Longrightarrow> 2 \<le> c div 64"
  by simp
lemma two_hi: "(c::nat) < 0x800 \<Longrightarrow> c div 64 \<le> 31"
  by simp
section \<open>UTF-8 round trip\<close>

lemma utf8_char_bytes: "utf8_char c = Some bs \<Longrightarrow> b \<in> set bs \<Longrightarrow> b < 256"
  by (auto simp: utf8_char_def split: if_splits)

lemma utf8_decode_1:
  "b0 < 0x80 \<Longrightarrow> utf8_decode (b0 # r) = map_option ((#) b0) (utf8_decode r)"
  by simp

lemma utf8_decode_2:
  "0xC2 \<le> b0 \<Longrightarrow> b0 \<le> 0xDF \<Longrightarrow> cont b1 \<Longrightarrow>
   utf8_decode (b0 # b1 # r) = map_option ((#) ((b0 - 0xC0) * 64 + (b1 - 0x80))) (utf8_decode r)"
  by simp

lemma utf8_decode_3:
  "0xE0 \<le> b0 \<Longrightarrow> b0 \<le> 0xEF \<Longrightarrow> (b0 = 0xE0 \<Longrightarrow> 0xA0 \<le> b1) \<Longrightarrow> 0x80 \<le> b1
   \<Longrightarrow> (b0 = 0xED \<Longrightarrow> b1 \<le> 0x9F) \<Longrightarrow> b1 \<le> 0xBF \<Longrightarrow> cont b2 \<Longrightarrow>
   utf8_decode (b0 # b1 # b2 # r) =
     map_option ((#) ((b0 - 0xE0) * 4096 + (b1 - 0x80) * 64 + (b2 - 0x80))) (utf8_decode r)"
  by simp

lemma utf8_decode_4:
  "0xF0 \<le> b0 \<Longrightarrow> b0 \<le> 0xF4 \<Longrightarrow> (b0 = 0xF0 \<Longrightarrow> 0x90 \<le> b1) \<Longrightarrow> 0x80 \<le> b1
   \<Longrightarrow> (b0 = 0xF4 \<Longrightarrow> b1 \<le> 0x8F) \<Longrightarrow> b1 \<le> 0xBF \<Longrightarrow> cont b2 \<Longrightarrow> cont b3 \<Longrightarrow>
   utf8_decode (b0 # b1 # b2 # b3 # r) =
     map_option ((#) ((b0 - 0xF0) * 262144 + (b1 - 0x80) * 4096 + (b2 - 0x80) * 64
        + (b3 - 0x80))) (utf8_decode r)"
  by simp

lemma utf8_decode_char:
  assumes "utf8_char c = Some bs"
  shows "utf8_decode (bs @ r) = map_option ((#) c) (utf8_decode r)"
proof -
  consider (one) "c < 0x80"
    | (two) "0x80 \<le> c" "c < 0x800"
    | (three) "0x800 \<le> c" "c < 0x10000" "\<not> (0xD800 \<le> c \<and> c \<le> 0xDFFF)"
    | (four) "0x10000 \<le> c" "c < 0x110000"
    using assms by (auto simp: utf8_char_def split: if_splits)
  then show ?thesis
  proof cases
    case one
    then have "bs = [c]" using assms by (simp add: utf8_char_def)
    with one show ?thesis by simp
  next
    case two
    then have bs: "bs = [0xC0 + c div 64, 0x80 + c mod 64]"
      using assms by (simp add: utf8_char_def)
    have r1: "0xC2 \<le> 0xC0 + c div 64" using two_lo [OF two(1)] by simp
    have r2: "0xC0 + c div 64 \<le> 0xDF" using two_hi [OF two(2)] by simp
    have r3: "cont (0x80 + c mod 64)" by (simp add: cont_def)
    have v: "(0xC0 + c div 64 - 0xC0) * 64 + (0x80 + c mod 64 - 0x80) = c"
      by simp
    show ?thesis
      unfolding bs using utf8_decode_2 [OF r1 r2 r3, of r]
      by (simp only: v append_Cons append_Nil)
  next
    case three
    then have bs: "bs = [0xE0 + c div 4096, 0x80 + c div 64 mod 64, 0x80 + c mod 64]"
      using assms by (auto simp: utf8_char_def split: if_splits)
    have m: "c div 64 mod 64 < 64" by simp
    have r1: "0xE0 \<le> 0xE0 + c div 4096" by simp
    have r2: "0xE0 + c div 4096 \<le> 0xEF" using three_top [OF three(2)] by simp
    have r3: "0xE0 + c div 4096 = 0xE0 \<Longrightarrow> 0xA0 \<le> 0x80 + c div 64 mod 64"
      using three_lo [OF three(1)] by simp
    have r4: "0x80 \<le> 0x80 + c div 64 mod 64" by simp
    have r5: "0xE0 + c div 4096 = 0xED \<Longrightarrow> 0x80 + c div 64 mod 64 \<le> 0x9F"
      using three_hi [OF three(3)] by simp
    have r6: "0x80 + c div 64 mod 64 \<le> 0xBF" using m by linarith
    have r7: "cont (0x80 + c mod 64)" by (simp add: cont_def)
    have v: "(0xE0 + c div 4096 - 0xE0) * 4096 + (0x80 + c div 64 mod 64 - 0x80) * 64
               + (0x80 + c mod 64 - 0x80) = c"
      using three_val [of c] by simp
    show ?thesis
      unfolding bs using utf8_decode_3 [OF r1 r2 r3 r4 r5 r6 r7, of r]
      by (simp only: v append_Cons append_Nil)
  next
    case four
    then have bs: "bs = [0xF0 + c div 262144, 0x80 + c div 4096 mod 64,
        0x80 + c div 64 mod 64, 0x80 + c mod 64]"
      using assms by (auto simp: utf8_char_def split: if_splits)
    have m: "c div 64 mod 64 < 64" "c div 4096 mod 64 < 64" by simp_all
    have r1: "0xF0 \<le> 0xF0 + c div 262144" by simp
    have r2: "0xF0 + c div 262144 \<le> 0xF4" using four_top [OF four(2)] by simp
    have r3: "0xF0 + c div 262144 = 0xF0 \<Longrightarrow> 0x90 \<le> 0x80 + c div 4096 mod 64"
      using four_lo [OF four(1)] by simp
    have r4: "0x80 \<le> 0x80 + c div 4096 mod 64" by simp
    have r5: "0xF0 + c div 262144 = 0xF4 \<Longrightarrow> 0x80 + c div 4096 mod 64 \<le> 0x8F"
      using four_hi [OF four(2)] by simp
    have r6: "0x80 + c div 4096 mod 64 \<le> 0xBF" using m by linarith
    have r7: "cont (0x80 + c div 64 mod 64)" using m by (simp add: cont_def)
    have r8: "cont (0x80 + c mod 64)" by (simp add: cont_def)
    have v: "(0xF0 + c div 262144 - 0xF0) * 262144 + (0x80 + c div 4096 mod 64 - 0x80) * 4096
               + (0x80 + c div 64 mod 64 - 0x80) * 64 + (0x80 + c mod 64 - 0x80) = c"
      using four_val [of c] by simp
    show ?thesis
      unfolding bs using utf8_decode_4 [OF r1 r2 r3 r4 r5 r6 r7 r8, of r]
      by (simp only: v append_Cons append_Nil)
  qed
qed

lemma utf8_encode_bytes: "utf8_encode s = Some bs \<Longrightarrow> \<forall>b\<in>set bs. b < 256"
proof (induction s arbitrary: bs)
  case Nil
  then show ?case by simp
next
  case (Cons c cs)
  then show ?case
    by (auto split: option.splits dest: utf8_char_bytes)
qed

lemma utf8_round_trip: "utf8_encode s = Some bs \<Longrightarrow> utf8_decode bs = Some s"
proof (induction s arbitrary: bs)
  case Nil
  then show ?case by simp
next
  case (Cons c cs)
  then obtain b rest where b: "utf8_char c = Some b" "utf8_encode cs = Some rest"
    "bs = b @ rest"
    by (auto split: option.splits)
  with Cons.IH [of rest] show ?case
    by (simp only: utf8_decode_char [OF b(1)]) simp
qed

lemma unat_of_nat_bytes:
  "\<forall>b\<in>set bs. b < 256 \<Longrightarrow> map unat (map of_nat bs :: byte list) = bs"
  by (induction bs) (simp_all add: unat_of_nat)

lemma str_encode_decode:
  assumes "str_encode s = Inr bs"
  shows "bytes_decode bs = Inr s"
proof -
  from assms obtain ns where ns: "utf8_encode s = Some ns" "bs = map of_nat ns"
    by (auto simp: str_encode_def split: option.splits)
  have "map unat bs = ns"
    unfolding ns(2) by (rule unat_of_nat_bytes) (rule utf8_encode_bytes [OF ns(1)])
  then show ?thesis
    by (simp add: bytes_decode_def utf8_round_trip [OF ns(1)])
qed

section \<open>Base64 round trip\<close>

lemma table_all:
  "list_all (\<lambda>i. a2b (b2a i) = Some i \<and> b2a i \<noteq> BASE64_PAD \<and> b2a i < 128
      \<and> b2a i \<noteq> 45 \<and> b2a i \<noteq> 95) [0..<64]"
  by (simp add: upt_rec [of 0] upt_rec [of "Suc 0"] numeral_2_eq_2 [symmetric]
      b2a_def table_b2a_base64_def a2b_def BASE64_PAD_def)

lemma b2a_props:
  assumes "i < 64"
  shows "a2b (b2a i) = Some i" "b2a i \<noteq> BASE64_PAD" "b2a i < 128" "b2a i \<noteq> 45"
    "b2a i \<noteq> 95"
  using table_all assms by (simp_all add: list_all_iff)


lemma a2b_base64_char:
  assumes "v < 64"
  shows "a2b_base64 q l p (b2a v # rest) =
     (if q = 0 then a2b_base64 1 v 0 rest
      else if q = 1 then
        map_option ((#) ((l * 4 + v div 16) mod 256)) (a2b_base64 2 (v mod 16) 0 rest)
      else if q = 2 then
        map_option ((#) ((l * 16 + v div 4) mod 256)) (a2b_base64 3 (v mod 4) 0 rest)
      else map_option ((#) ((l * 64 + v) mod 256)) (a2b_base64 0 0 0 rest))"
  using b2a_props [OF assms] by simp

lemma a2b_base64_quad:
  assumes "s0 < 64" "s1 < 64" "s2 < 64" "s3 < 64"
  shows "a2b_base64 0 0 0 (b2a s0 # b2a s1 # b2a s2 # b2a s3 # rest) =
     map_option (\<lambda>out. (s0 * 4 + s1 div 16) mod 256 # (s1 mod 16 * 16 + s2 div 4) mod 256
        # (s2 mod 4 * 64 + s3) mod 256 # out) (a2b_base64 0 0 0 rest)"
  by (simp add: a2b_base64_char assms option.map_comp comp_def del: a2b_base64.simps)

lemma sextets_core:
  fixes a b c d e f :: nat
  assumes "a < 64" "b < 4" "c < 16" "d < 16" "e < 4" "f < 64"
  shows "b * 16 + c < 64" "d * 4 + e < 64" "b * 16 < 64" "d * 4 < 64"
    "(a * 4 + (b * 16 + c) div 16) mod 256 = a * 4 + b"
    "((b * 16 + c) mod 16 * 16 + (d * 4 + e) div 4) mod 256 = c * 16 + d"
    "((d * 4 + e) mod 4 * 64 + f) mod 256 = e * 64 + f"
    "(a * 4 + (b * 16) div 16) mod 256 = a * 4 + b"
    "((b * 16 + c) mod 16 * 16 + (d * 4) div 4) mod 256 = c * 16 + d"
  using assms by simp_all

lemma sextets:
  fixes x y z :: nat
  assumes "x < 256" "y < 256" "z < 256"
  shows "x div 4 < 64" "x mod 4 * 16 + y div 16 < 64" "y mod 16 * 4 + z div 64 < 64"
    "z mod 64 < 64" "x mod 4 * 16 < 64" "y mod 16 * 4 < 64"
    "(x div 4 * 4 + (x mod 4 * 16 + y div 16) div 16) mod 256 = x"
    "((x mod 4 * 16 + y div 16) mod 16 * 16 + (y mod 16 * 4 + z div 64) div 4) mod 256 = y"
    "((y mod 16 * 4 + z div 64) mod 4 * 64 + z mod 64) mod 256 = z"
    "(x div 4 * 4 + (x mod 4 * 16) div 16) mod 256 = x"
    "((x mod 4 * 16 + y div 16) mod 16 * 16 + (y mod 16 * 4) div 4) mod 256 = y"
proof -
  have r: "x div 4 < 64" "x mod 4 < 4" "y div 16 < 16" "y mod 16 < 16" "z div 64 < 4"
    "z mod 64 < 64"
    using assms by simp_all
  note c = sextets_core [OF r]
  show "x div 4 < 64" "z mod 64 < 64" by (rule r)+
  show "x mod 4 * 16 + y div 16 < 64" "y mod 16 * 4 + z div 64 < 64" "x mod 4 * 16 < 64"
    "y mod 16 * 4 < 64"
    by (rule c)+
  show "(x div 4 * 4 + (x mod 4 * 16 + y div 16) div 16) mod 256 = x"
    unfolding c by simp
  show "((x mod 4 * 16 + y div 16) mod 16 * 16 + (y mod 16 * 4 + z div 64) div 4) mod 256 = y"
    unfolding c by simp
  show "((y mod 16 * 4 + z div 64) mod 4 * 64 + z mod 64) mod 256 = z"
    unfolding c by simp
  show "(x div 4 * 4 + (x mod 4 * 16) div 16) mod 256 = x"
    unfolding c by simp
  show "((x mod 4 * 16 + y div 16) mod 16 * 16 + (y mod 16 * 4) div 4) mod 256 = y"
    unfolding c by simp
qed


lemma a2b_base64_tail2:
  assumes "s0 < 64" "s1 < 64"
  shows "a2b_base64 0 0 0 [b2a s0, b2a s1, BASE64_PAD, BASE64_PAD] =
     Some [(s0 * 4 + s1 div 16) mod 256]"
  by (simp add: a2b_base64_char assms del: a2b_base64.simps) simp

lemma a2b_base64_tail3:
  assumes "s0 < 64" "s1 < 64" "s2 < 64"
  shows "a2b_base64 0 0 0 [b2a s0, b2a s1, b2a s2, BASE64_PAD] =
     Some [(s0 * 4 + s1 div 16) mod 256, (s1 mod 16 * 16 + s2 div 4) mod 256]"
  by (simp add: a2b_base64_char assms del: a2b_base64.simps) simp

lemma a2b_base64_round_trip:
  "\<forall>b\<in>set xs. b < 256 \<Longrightarrow> a2b_base64 0 0 0 (b2a_base64 xs) = Some xs"
proof (induction xs rule: b2a_base64.induct)
  case 1
  then show ?case by simp
next
  case (2 x)
  then have x: "x < 256" by simp
  note s = sextets [OF x x x]
  show ?case
    by (simp only: b2a_base64.simps a2b_base64_tail2 [OF s(1) s(5)] s(10))
next
  case (3 x y)
  then have x: "x < 256" and y: "y < 256" by simp_all
  note s = sextets [OF x y y]
  show ?case
    by (simp only: b2a_base64.simps a2b_base64_tail3 [OF s(1) s(2) s(6)] s(7) s(11))
next
  case (4 x y z r)
  then have x: "x < 256" and y: "y < 256" and z: "z < 256" and r: "\<forall>b\<in>set r. b < 256"
    by simp_all
  note s = sextets [OF x y z]
  show ?case
    using "4.IH" [OF r]
    by (simp only: b2a_base64.simps a2b_base64_quad [OF s(1) s(2) s(3) s(4)] s(7) s(8) s(9)
        option.map)
qed

lemma b2a_ascii: "b2a i < 128"
  using b2a_props(3) [of "i mod 64"] by (simp add: b2a_def)

lemma b2a_base64_ascii: "c \<in> set (b2a_base64 xs) \<Longrightarrow> c < 128"
  by (induction xs rule: b2a_base64.induct) (auto simp: b2a_ascii BASE64_PAD_def)

lemma utf8_encode_ascii: "\<forall>c\<in>set cs. c < 128 \<Longrightarrow> utf8_encode cs = Some cs"
  by (induction cs) (simp_all add: utf8_char_def)

lemma utf8_decode_ascii: "\<forall>c\<in>set cs. c < 128 \<Longrightarrow> utf8_decode cs = Some cs"
  by (induction cs) simp_all

lemma of_nat_unat_bytes: "map (of_nat \<circ> unat) bs = (bs :: byte list)"
  by (induction bs) simp_all

lemma unat_byte_less: "unat (b :: byte) < 256"
  using unsigned_less [of b] by simp

lemma unat_byte: "b \<in> set (map unat (bs :: byte list)) \<Longrightarrow> b < 256"
  by (auto simp: unat_byte_less)

lemma unat_b64encode: "map unat (b64encode t) = b2a_base64 (map unat t)"
  unfolding b64encode_def
  by (rule unat_of_nat_bytes) (auto dest: b2a_base64_ascii)

lemma bytes_decode_b64encode: "bytes_decode (b64encode t) = Inr (b2a_base64 (map unat t))"
  by (simp add: bytes_decode_def unat_b64encode utf8_decode_ascii b2a_base64_ascii)

lemma str_encode_b2a_base64: "str_encode (b2a_base64 (map unat t)) = Inr (b64encode t)"
  by (simp add: str_encode_def b64encode_def utf8_encode_ascii b2a_base64_ascii)

lemma b64decode_b64encode: "b64decode (b64encode t) = Inr t"
proof -
  have "a2b_base64 0 0 0 (b2a_base64 (map unat t)) = Some (map unat t)"
    by (rule a2b_base64_round_trip) (simp add: unat_byte_less)
  then show ?thesis
    by (simp add: b64decode_def unat_b64encode of_nat_unat_bytes)
qed

section \<open>The cipher wrapper\<close>

lemma b2a_base64_Nil: "b2a_base64 xs = [] \<longleftrightarrow> xs = []"
  by (induction xs rule: b2a_base64.induct) simp_all

lemma encrypt_text_falsy: "\<not> truthy text \<Longrightarrow> encrypt_text ciph e text = Inr []"
  by (simp add: encrypt_text_def)

lemma encrypt_text_str:
  "s \<noteq> [] \<Longrightarrow> str_encode s = Inr bs \<Longrightarrow>
   encrypt_text ciph e (PStr s) = Inr (b2a_base64 (map unat (fernet_encrypt ciph bs e)))"
  by (simp add: encrypt_text_def bytes_decode_b64encode)

lemma decrypt_try_b2a_base64:
  "decrypt_try ciph (b2a_base64 (map unat t)) =
     (case fernet_decrypt ciph t of None \<Rightarrow> Inl InvalidToken | Some m \<Rightarrow> bytes_decode m)"
  by (simp add: decrypt_try_def str_encode_b2a_base64 b64decode_b64encode)

lemma decrypt_text_of_encrypt_text:
  assumes "s \<noteq> []" "str_encode s = Inr bs" "fernet_round_trip ciph e bs"
  shows "decrypt_text ciph (b2a_base64 (map unat (fernet_encrypt ciph bs e))) = (s, [])"
  using assms
  by (simp add: decrypt_text_def decrypt_try_b2a_base64 fernet_round_trip_def
      b2a_base64_Nil str_encode_decode)

lemma utf8_encode_total:
  "wf_str s \<Longrightarrow> \<not> has_surrogate s \<Longrightarrow> \<exists>bs. utf8_encode s = Some bs"
  by (induction s) (auto simp: wf_str_def has_surrogate_def utf8_char_def)

lemma str_encode_total:
  "wf_str s \<Longrightarrow> \<not> has_surrogate s \<Longrightarrow> \<exists>bs. str_encode s = Inr bs"
  using utf8_encode_total [of s] by (auto simp: str_encode_def)

section \<open>The bits a padded group leaves unused\<close>

lemma length_b2a_base64: "length (b2a_base64 xs) = 4 * ((length xs + 2) div 3)"
proof (induction xs rule: b2a_base64.induct)
  case (4 x y z r)
  have "(length (x # y # z # r) + 2) div 3 = Suc ((length r + 2) div 3)" by simp
  then show ?case using 4 by simp
qed simp_all

lemma spare_bits:
  fixes x k :: nat
  assumes "x < 256" "k < 16"
  shows "x mod 4 * 16 + k < 64" "(x div 4 * 4 + (x mod 4 * 16 + k) div 16) mod 256 = x"
proof -
  have m: "x mod 4 < 4" by simp
  show "x mod 4 * 16 + k < 64" using m assms(2) by linarith
  have "(x mod 4 * 16 + k) div 16 = x mod 4" using assms(2) by simp
  then show "(x div 4 * 4 + (x mod 4 * 16 + k) div 16) mod 256 = x"
    using assms(1) by simp
qed

lemma a2b_base64_spare_bits:
  assumes "\<forall>b\<in>set xs. b < 256" "length xs mod 3 = 1" "k < 16"
  shows "a2b_base64 0 0 0
           ((b2a_base64 xs)[length (b2a_base64 xs) - 3 := b2a (last xs mod 4 * 16 + k)])
         = Some xs"
  using assms
proof (induction xs rule: b2a_base64.induct)
  case 1
  then show ?case by simp
next
  case (2 x)
  then have x: "x < 256" by simp
  note s = sextets [OF x x x]
  note t = spare_bits [OF x \<open>k < 16\<close>]
  have "(b2a_base64 [x])[length (b2a_base64 [x]) - 3 := b2a (last [x] mod 4 * 16 + k)] =
      [b2a (x div 4), b2a (x mod 4 * 16 + k), BASE64_PAD, BASE64_PAD]"
    by simp
  then show ?case
    by (simp only: a2b_base64_tail2 [OF s(1) t(1)] t(2))
next
  case (3 x y)
  then show ?case by simp
next
  case (4 x y z r)
  then have x: "x < 256" and y: "y < 256" and z: "z < 256" and r: "\<forall>b\<in>set r. b < 256"
    by simp_all
  from "4.prems"(2) have l: "length r mod 3 = 1" by simp
  then have ne: "r \<noteq> []" by auto
  have "4 \<le> length (b2a_base64 r)"
    unfolding length_b2a_base64 using l by presburger
  then have len4: "length (b2a_base64 (x # y # z # r)) - 3 =
      Suc (Suc (Suc (Suc (length (b2a_base64 r) - 3))))"
    by simp
  note s = sextets [OF x y z]
  have la: "last (x # y # z # r) = last r" using ne by simp
  have u: "(b2a_base64 (x # y # z # r))[length (b2a_base64 (x # y # z # r)) - 3 :=
        b2a (last (x # y # z # r) mod 4 * 16 + k)] =
      b2a (x div 4) # b2a (x mod 4 * 16 + y div 16) # b2a (y mod 16 * 4 + z div 64)
       # b2a (z mod 64)
       # (b2a_base64 r)[length (b2a_base64 r) - 3 := b2a (last r mod 4 * 16 + k)]"
    unfolding len4 la by (simp only: b2a_base64.simps list_update_code)
  show ?case
    unfolding u using "4.IH" [OF r l \<open>k < 16\<close>]
    by (simp only: a2b_base64_quad [OF s(1) s(2) s(3) s(4)] s(7) s(8) s(9) option.map)
qed

lemma b2a_inj:
  assumes "i < 64" "j < 64" "b2a i = b2a j"
  shows "i = j"
proof -
  have "Some i = a2b (b2a i)" using b2a_props(1) [OF assms(1)] by (rule sym)
  also have "\<dots> = a2b (b2a j)" by (simp only: assms(3))
  also have "\<dots> = Some j" by (rule b2a_props(1) [OF assms(2)])
  finally show ?thesis by (simp only: option.inject)
qed

section \<open>The stand-in decrypts what it encrypts\<close>

lemma b2a_no_urlsafe: "b2a i \<noteq> 45" "b2a i \<noteq> 95"
  using b2a_props(4,5) [of "i mod 64"] by (simp_all add: b2a_def)

lemma b2a_base64_no_urlsafe: "c \<in> set (b2a_base64 xs) \<Longrightarrow> c \<noteq> 45 \<and> c \<noteq> 95"
  by (induction xs rule: b2a_base64.induct) (auto simp: b2a_no_urlsafe BASE64_PAD_def)

lemma b64encode_no_urlsafe:
  assumes "b \<in> set (b64encode x)"
  shows "b \<noteq> 45 \<and> b \<noteq> 95"
proof -
  from assms have "unat b \<in> set (map unat (b64encode x))" by simp
  then have "unat b \<noteq> 45 \<and> unat b \<noteq> 95"
    unfolding unat_b64encode by (rule b2a_base64_no_urlsafe)
  then show ?thesis by auto
qed

lemma translate_back:
  "\<forall>b\<in>set l. b \<noteq> 45 \<and> b \<noteq> 95 \<Longrightarrow>
   map (\<lambda>b. if b = of_char CHR ''-'' then of_char CHR ''+''
                else if b = of_char CHR ''_'' then of_char CHR ''/'' else b)
          (map (\<lambda>b. if b = of_char CHR ''+'' then of_char CHR ''-''
              else if b = of_char CHR ''/'' then of_char CHR ''_'' else b) l)
        = (l :: byte list)"
  by (induction l) auto

lemma urlsafe_round_trip: "urlsafe_b64decode (urlsafe_b64encode x) = Inr x"
  using translate_back [of "b64encode x"] b64encode_no_urlsafe [of _ x]
  by (simp add: urlsafe_b64decode_def urlsafe_b64encode_def b64decode_b64encode)

lemma pkcs7_round_trip: "pkcs7_unpad (pkcs7_pad d) = Some d"
proof -
  define n where "n = 16 - length d mod 16"
  have n: "0 < n" "n \<le> 16" "(length d + n) mod 16 = 0"
    unfolding n_def by presburger+
  have u: "unat (of_nat n :: byte) = n"
    using n by (simp add: unat_of_nat)
  have p: "pkcs7_pad d = d @ replicate n (of_nat n)"
    by (simp add: pkcs7_pad_def n_def)
  show ?thesis
    unfolding p using n by (simp add: pkcs7_unpad_def u)
qed

lemma length_pkcs7_pad: "16 \<le> length (pkcs7_pad d)"
proof -
  have "0 < length (pkcs7_pad d)" "length (pkcs7_pad d) mod 16 = 0"
    unfolding pkcs7_pad_def length_append length_replicate by presburger+
  then show ?thesis by presburger
qed

lemma stub_round_trip:
  assumes "length (snd e) = 16"
  shows "stub_decrypt (stub_encrypt d e) = Some d"
proof -
  define front :: "byte list"
    where "front = [0x80] @ map (\<lambda>i. of_nat (fst e div 256 ^ i)) [7, 6, 5, 4, 3, 2, 1, 0] @ snd e"
  define body where "body = front @ pkcs7_pad d"
  have enc: "stub_encrypt d e = urlsafe_b64encode (body @ stub_tag body)"
    by (simp add: stub_encrypt_def body_def front_def Let_def)
  have lf: "length front = 25" using assms by (simp add: front_def)
  have lb: "length body = 25 + length (pkcs7_pad d)" by (simp add: body_def lf)
  have lt: "length (stub_tag body) = 32" by (simp add: stub_tag_def)
  have hd: "hd (body @ stub_tag body) = 0x80" by (simp add: body_def front_def)
  have len: "\<not> length (body @ stub_tag body) < 73"
    using length_pkcs7_pad [of d] by (simp add: lb lt)
  have tk: "take (length (body @ stub_tag body) - 32) (body @ stub_tag body) = body"
    by (simp add: lt)
  have dr: "drop (length (body @ stub_tag body) - 32) (body @ stub_tag body) = stub_tag body"
    by (simp add: lt)
  have d25: "drop 25 body = pkcs7_pad d" by (simp add: body_def lf)
  show ?thesis
    unfolding enc stub_decrypt_def urlsafe_round_trip
    by (simp only: sum.case hd len tk dr d25 pkcs7_round_trip simp_thms if_False)
qed

lemma b64encode_Nil: "b64encode x = [] \<longleftrightarrow> x = []"
  by (simp add: b64encode_def b2a_base64_Nil)

lemma stub_encrypt_not_Nil: "stub_encrypt d e \<noteq> []"
  by (simp add: stub_encrypt_def urlsafe_b64encode_def Let_def b64encode_Nil)

lemma stub_fernet_round_trip:
  "length (snd e) = 16 \<Longrightarrow> fernet_round_trip stub_fernet e d"
  by (simp add: fernet_round_trip_def stub_fernet_def stub_round_trip stub_encrypt_not_Nil)

section \<open>The sample ciphertext\<close>

lemma replicate_numeral: "replicate (numeral k) x = x # replicate (pred_numeral k) x"
  by (simp add: numeral_eq_Suc)

lemma stub_token_hi:
  "stub_encrypt (map of_char ''hi'') stub_entropy =
     map of_char ''gAAAAABpCc0QAQIDBAUGBwgJCgsMDQ4PEGhpDg4ODg4ODg4ODg4ODg7s7Ozs7Ozs7Ozs7Ozs7Ozs7Ozs7Ozs7Ozs7Ozs7Ozs7A==''"
  by (simp add: stub_encrypt_def stub_entropy_def pkcs7_pad_def stub_tag_def replicate_numeral
      urlsafe_b64encode_def b64encode_def b2a_def table_b2a_base64_def BASE64_PAD_def)

lemma str_encode_hi: "str_encode (ascii ''hi'') = Inr (map of_char ''hi'')"
  by (simp add: str_encode_def ascii_def utf8_char_def)

lemma sample_ciphertext_eq:
  "sample_ciphertext = ascii ''Z0FBQUFBQnBDYzBRQVFJREJBVUdCd2dKQ2dzTURRNFBFR2hwRGc0T0RnNE9EZzRPRGc0T0RnN3M3T3pzN096czdPenM3T3pzN096czdPenM3T3pzN096czdPenM3T3pzN0E9PQ==''"
proof -
  have n: "ascii ''hi'' \<noteq> []" by (simp add: ascii_def)
  have e: "encrypt_text stub_fernet stub_entropy (PStr (ascii ''hi'')) =
      Inr (b2a_base64 (map unat (stub_encrypt (map of_char ''hi'') stub_entropy)))"
    using encrypt_text_str [OF n str_encode_hi, of stub_fernet stub_entropy]
    by (simp only: stub_fernet_def cipher.simps)
  have v: "b2a_base64 (map unat (map of_char ''gAAAAABpCc0QAQIDBAUGBwgJCgsMDQ4PEGhpDg4ODg4ODg4ODg4ODg7s7Ozs7Ozs7Ozs7Ozs7Ozs7Ozs7Ozs7Ozs7Ozs7Ozs7A=='' :: byte list)) =
      ascii ''Z0FBQUFBQnBDYzBRQVFJREJBVUdCd2dKQ2dzTURRNFBFR2hwRGc0T0RnNE9EZzRPRGc0T0RnN3M3T3pzN096czdPenM3T3pzN096czdPenM3T3pzN096czdPenM3T3pzN0E9PQ==''"
    by (simp add: ascii_def b2a_def table_b2a_base64_def BASE64_PAD_def)
  show ?thesis
    unfolding sample_ciphertext_def e stub_token_hi v by (simp only: sum.case)
qed

lemma tampered_decodes:
  "a2b_base64 0 0 0 (sample_ciphertext[133 := of_char CHR ''R'']) =
     Some (map unat (stub_encrypt (map of_char ''hi'') stub_entropy))"
  unfolding sample_ciphertext_eq stub_token_hi
  by (simp add: ascii_def a2b_def BASE64_PAD_def)

section \<open>Decrypting a text of ASCII characters\<close>

lemma str_encode_ascii: "\<forall>ch\<in>set x. ch < 128 \<Longrightarrow> str_encode x = Inr (map of_nat x)"
  by (simp add: str_encode_def utf8_encode_ascii)

lemma decrypt_try_ascii:
  assumes "\<forall>ch\<in>set x. ch < 128"
  shows "decrypt_try ciph x =
     (case a2b_base64 0 0 0 x of
        None \<Rightarrow> Inl BinasciiError
      | Some out \<Rightarrow>
          (case fernet_decrypt ciph (map of_nat out) of
             None \<Rightarrow> Inl InvalidToken
           | Some m \<Rightarrow> bytes_decode m))"
proof -
  have "\<forall>ch\<in>set x. ch < 256" using assms by auto
  then have "map unat (map of_nat x :: byte list) = x" by (rule unat_of_nat_bytes)
  then show ?thesis
    by (simp add: decrypt_try_def str_encode_ascii [OF assms] b64decode_def
        split: option.splits)
qed

lemma b2a_base64_nth_tail:
  "length xs mod 3 = 1 \<Longrightarrow>
   b2a_base64 xs ! (length (b2a_base64 xs) - 3) = b2a (last xs mod 4 * 16)"
proof (induction xs rule: b2a_base64.induct)
  case (4 x y z r)
  from "4.prems" have l: "length r mod 3 = 1" by simp
  then have ne: "r \<noteq> []" by auto
  have "4 \<le> length (b2a_base64 r)"
    unfolding length_b2a_base64 using l by presburger
  then have len4: "length (b2a_base64 (x # y # z # r)) - 3 =
      Suc (Suc (Suc (Suc (length (b2a_base64 r) - 3))))"
    by simp
  have la: "last (x # y # z # r) = last r" using ne by simp
  show ?case
    unfolding len4 la using "4.IH" [OF l] by (simp only: b2a_base64.simps nth_Cons_Suc)
qed simp_all

lemma decrypt_text_spare_bits:
  assumes "s \<noteq> []" "str_encode s = Inr bs" "fernet_round_trip ciph e bs"
    and "length (fernet_encrypt ciph bs e) mod 3 = 1" "k < 16"
  defines "c \<equiv> b2a_base64 (map unat (fernet_encrypt ciph bs e))"
  shows "decrypt_text ciph
      (c[length c - 3 := b2a (unat (last (fernet_encrypt ciph bs e)) mod 4 * 16 + k)]) = (s, [])"
proof -
  define tok where "tok = fernet_encrypt ciph bs e"
  define c' where "c' = c[length c - 3 := b2a (unat (last tok) mod 4 * 16 + k)]"
  have tok: "tok \<noteq> []" "fernet_decrypt ciph tok = Some bs"
    using assms(3) by (simp_all add: fernet_round_trip_def tok_def)
  have c: "c = b2a_base64 (map unat tok)" by (simp add: c_def tok_def)
  have bytes: "\<forall>b\<in>set (map unat tok). b < 256" by (simp add: unat_byte_less)
  have len: "length (map unat tok) mod 3 = 1" using assms(4) by (simp add: tok_def)
  have la: "last (map unat tok) = unat (last tok)" using tok(1) by (simp add: last_map)
  have dec: "a2b_base64 0 0 0 c' = Some (map unat tok)"
    using a2b_base64_spare_bits [OF bytes len assms(5)] by (simp only: c'_def c la)
  have "set c' \<subseteq> insert (b2a (unat (last tok) mod 4 * 16 + k)) (set c)"
    unfolding c'_def by (rule set_update_subset_insert)
  then have ascii: "\<forall>ch\<in>set c'. ch < 128"
    using b2a_ascii b2a_base64_ascii unfolding c by blast
  have "length c' = length c" by (simp add: c'_def)
  then have ne: "c' \<noteq> []" using tok(1) b2a_base64_Nil [of "map unat tok"] c by auto
  have "decrypt_try ciph c' = Inr s"
    by (simp add: decrypt_try_ascii [OF ascii] dec of_nat_unat_bytes tok(2)
        str_encode_decode [OF assms(2)])
  then show ?thesis
    using ne by (simp add: decrypt_text_def c'_def tok_def)
qed

lemma spare_bits_differ:
  assumes "length xs mod 3 = 1" "0 < k" "k < 16" "\<forall>b\<in>set xs. b < 256"
  shows "(b2a_base64 xs)[length (b2a_base64 xs) - 3 := b2a (last xs mod 4 * 16 + k)]
         \<noteq> b2a_base64 xs"
proof -
  have ne: "xs \<noteq> []" using assms(1) by auto
  then have x: "last xs < 256" using assms(4) by simp
  have "4 \<le> length (b2a_base64 xs)"
    unfolding length_b2a_base64 using assms(1) by presburger
  then have i: "length (b2a_base64 xs) - 3 < length (b2a_base64 xs)" by simp
  have "b2a (last xs mod 4 * 16 + k) \<noteq> b2a (last xs mod 4 * 16)"
    using b2a_inj [OF spare_bits(1) [OF x assms(3)] sextets(5) [OF x x x]] assms(2) by auto
  then show ?thesis
    using b2a_base64_nth_tail [OF assms(1)] i
    by (metis nth_list_update_eq)
qed


section \<open>More of the sample ciphertext\<close>

lemma ascii_hi_not_Nil: "ascii ''hi'' \<noteq> []"
  by (simp add: ascii_def)

lemma round_trip_hi: "fernet_round_trip stub_fernet stub_entropy (map of_char ''hi'')"
  by (rule stub_fernet_round_trip) (simp add: stub_entropy_def)

lemma sample_ciphertext_b2a:
  "sample_ciphertext =
     b2a_base64 (map unat (fernet_encrypt stub_fernet (map of_char ''hi'') stub_entropy))"
  unfolding sample_ciphertext_def
  by (simp only: encrypt_text_str [OF ascii_hi_not_Nil str_encode_hi] sum.case)

lemma encrypt_text_hi:
  "encrypt_text stub_fernet stub_entropy (PStr (ascii ''hi'')) = Inr sample_ciphertext"
  by (simp only: encrypt_text_str [OF ascii_hi_not_Nil str_encode_hi] sample_ciphertext_b2a)

lemma decrypt_text_sample: "decrypt_text stub_fernet sample_ciphertext = (ascii ''hi'', [])"
  unfolding sample_ciphertext_b2a
  by (rule decrypt_text_of_encrypt_text [OF ascii_hi_not_Nil str_encode_hi round_trip_hi])

lemma sample_ciphertext_ascii: "\<forall>ch\<in>set sample_ciphertext. ch < 128"
  unfolding sample_ciphertext_b2a using b2a_base64_ascii by blast

lemma length_sample_ciphertext: "length sample_ciphertext = 136"
  unfolding sample_ciphertext_eq by (simp add: ascii_def)

section \<open>Failures inside the try\<close>

lemma decrypt_try_failures:
  assumes "str_encode x = Inl e
     \<or> (\<exists>bs. str_encode x = Inr bs \<and> (b64decode bs = Inl e
          \<or> (\<exists>t. b64decode bs = Inr t \<and> ((fernet_decrypt ciph t = None \<and> e = InvalidToken)
                \<or> (\<exists>m. fernet_decrypt ciph t = Some m \<and> bytes_decode m = Inl e)))))"
  shows "decrypt_try ciph x = Inl e"
  using assms by (auto simp: decrypt_try_def)

lemma get_notes_append:
  "get_notes ciph (xs @ ys) =
     (fst (get_notes ciph xs) @ fst (get_notes ciph ys),
      snd (get_notes ciph xs) @ snd (get_notes ciph ys))"
  by (simp add: get_notes_def)

lemma get_notes_Cons:
  "get_notes ciph (n # ys) =
     (fst (to_dict ciph n) # fst (get_notes ciph ys),
      snd (to_dict ciph n) @ snd (get_notes ciph ys))"
  by (simp add: get_notes_def)

lemma decrypt_text_tampered_R:
  "decrypt_text stub_fernet (sample_ciphertext[133 := of_char CHR ''R'']) = (ascii ''hi'', [])"
proof -
  have a: "\<forall>ch\<in>set (sample_ciphertext[133 := of_char CHR ''R'']). ch < 128"
    using set_update_subset_insert [of sample_ciphertext 133 "of_char CHR ''R''"]
      sample_ciphertext_ascii
    by auto
  have ne: "sample_ciphertext[133 := of_char CHR ''R''] \<noteq> []"
    using length_sample_ciphertext by auto
  have d: "fernet_decrypt stub_fernet (stub_encrypt (map of_char ''hi'') stub_entropy)
      = Some (map of_char ''hi'')"
    using round_trip_hi by (simp add: fernet_round_trip_def stub_fernet_def)
  have "decrypt_try stub_fernet (sample_ciphertext[133 := of_char CHR ''R''])
      = Inr (ascii ''hi'')"
    by (simp only: decrypt_try_ascii [OF a] tampered_decodes option.case list.map_comp
        of_nat_unat_bytes d str_encode_decode [OF str_encode_hi])
  then show ?thesis
    using ne by (simp add: decrypt_text_def)
qed

lemma tampered_pad_fails:
  "a2b_base64 0 0 0 (sample_ciphertext[135 := of_char CHR ''A'']) = None"
  unfolding sample_ciphertext_eq by (simp add: ascii_def a2b_def BASE64_PAD_def)

section \<open>Outcomes of decryption\<close>

lemma decrypt_text_outcome:
  "(\<exists>p. decrypt_text ciph y = (p, []))
   \<or> (\<exists>e. decrypt_text ciph y = (ascii ''[Decryption Error]'', [e]))"
  by (cases "decrypt_try ciph y") (simp_all add: decrypt_text_def sentinel_def)

lemma decrypt_text_A:
  "decrypt_text stub_fernet (ascii ''A'') = (ascii ''[Decryption Error]'', [BinasciiError])"
  by (simp add: decrypt_text_def decrypt_try_def str_encode_def ascii_def utf8_char_def
      b64decode_def a2b_def BASE64_PAD_def sentinel_def)

lemma b64decode_ascii:
  assumes "\<forall>ch\<in>set y. ch < 128"
  shows "b64decode (map of_nat y) =
     (case a2b_base64 0 0 0 y of None \<Rightarrow> Inl BinasciiError | Some out \<Rightarrow> Inr (map of_nat out))"
proof -
  have "\<forall>ch\<in>set y. ch < 256" using assms by auto
  then have "map unat (map of_nat y :: byte list) = y" by (rule unat_of_nat_bytes)
  then show ?thesis by (simp only: b64decode_def)
qed

lemma decrypt_text_authentic:
  assumes "s \<noteq> []" "str_encode s = Inr bs" "y \<noteq> []"
    and "\<forall>bs' t m. str_encode y = Inr bs' \<and> b64decode bs' = Inr t
           \<and> fernet_decrypt ciph t = Some m \<longrightarrow> m = bs"
  shows "(decrypt_text ciph y = (s, [])
          \<or> (\<exists>x. decrypt_text ciph y = (ascii ''[Decryption Error]'', [x])))
    \<and> (decrypt_text ciph y = (s, []) \<longleftrightarrow>
          (\<exists>bs' t. str_encode y = Inr bs' \<and> b64decode bs' = Inr t
             \<and> fernet_decrypt ciph t \<noteq> None))"
proof (cases "str_encode y")
  case (Inl x)
  then show ?thesis
    using assms(3) by (simp add: decrypt_text_def decrypt_try_def sentinel_def)
next
  case bs': (Inr bs')
  show ?thesis
  proof (cases "b64decode bs'")
    case (Inl x)
    then show ?thesis
      using assms(3) bs' by (simp add: decrypt_text_def decrypt_try_def sentinel_def)
  next
    case t: (Inr t)
    show ?thesis
    proof (cases "fernet_decrypt ciph t")
      case None
      then show ?thesis
        using assms(3) bs' t by (simp add: decrypt_text_def decrypt_try_def sentinel_def)
    next
      case (Some m)
      with assms(4) bs' t have "m = bs" by blast
      then show ?thesis
        using assms(3) bs' t Some str_encode_decode [OF assms(2)]
        by (simp add: decrypt_text_def decrypt_try_def)
    qed
  qed
qed

section \<open>The sample ciphertext with one character replaced\<close>

lemma sample_update_ascii:
  assumes "v < 128"
  shows "\<forall>ch\<in>set (sample_ciphertext[i := v]). ch < 128"
  using set_update_subset_insert [of sample_ciphertext i v] sample_ciphertext_ascii assms
  by auto

lemma tampered_S_decodes:
  "a2b_base64 0 0 0 (sample_ciphertext[133 := of_char CHR ''S'']) =
     Some (map unat (stub_encrypt (map of_char ''hi'') stub_entropy))"
  unfolding sample_ciphertext_eq stub_token_hi
  by (simp add: ascii_def a2b_def BASE64_PAD_def)

lemma tampered_x_decodes:
  "a2b_base64 0 0 0 (sample_ciphertext[46 := of_char CHR ''x'']) =
     Some (map unat (map of_char ''gAAAAABpCc0QAQIDBAUGBwgJCgsMDQ4PEGlpDg4ODg4ODg4ODg4ODg7s7Ozs7Ozs7Ozs7Ozs7Ozs7Ozs7Ozs7Ozs7Ozs7Ozs7A=='' :: byte list))"
  unfolding sample_ciphertext_eq
  by (simp add: ascii_def a2b_def BASE64_PAD_def)

lemma tampered_x_rejected:
  "stub_decrypt (map of_char ''gAAAAABpCc0QAQIDBAUGBwgJCgsMDQ4PEGlpDg4ODg4ODg4ODg4ODg7s7Ozs7Ozs7Ozs7Ozs7Ozs7Ozs7Ozs7Ozs7Ozs7Ozs7A=='') = None"
  by (simp add: stub_decrypt_def urlsafe_b64decode_def b64decode_def a2b_def BASE64_PAD_def
      stub_tag_def replicate_numeral)


lemma fernet_decrypt_stub: "fernet_decrypt stub_fernet = stub_decrypt"
  by (simp add: stub_fernet_def)

lemma of_nat_unat_map: "map of_nat (map unat bs) = (bs :: byte list)"
  by (simp add: of_nat_unat_bytes)

lemma stub_decrypt_token_hi:
  "fernet_decrypt stub_fernet (stub_encrypt (map of_char ''hi'') stub_entropy)
     = Some (map of_char ''hi'')"
  using round_trip_hi by (simp add: fernet_round_trip_def stub_fernet_def)

lemma tampered_S_authentic:
  "\<forall>bs' t m. str_encode (sample_ciphertext[133 := of_char CHR ''S'']) = Inr bs'
      \<and> b64decode bs' = Inr t \<and> fernet_decrypt stub_fernet t = Some m
    \<longrightarrow> m = map of_char ''hi''"
proof (intro allI impI, elim conjE)
  fix bs' t m
  have a: "\<forall>ch\<in>set (sample_ciphertext[133 := of_char CHR ''S'']). ch < 128"
    by (rule sample_update_ascii) simp
  assume "str_encode (sample_ciphertext[133 := of_char CHR ''S'']) = Inr bs'"
  then have bs': "bs' = map of_nat (sample_ciphertext[133 := of_char CHR ''S''])"
    unfolding str_encode_ascii [OF a] by simp
  assume "b64decode bs' = Inr t"
  then have t: "t = stub_encrypt (map of_char ''hi'') stub_entropy"
    unfolding bs' b64decode_ascii [OF a] tampered_S_decodes
    by (simp only: option.case of_nat_unat_map sum.inject)
  assume "fernet_decrypt stub_fernet t = Some m"
  then show "m = map of_char ''hi''"
    unfolding t stub_decrypt_token_hi by simp
qed

lemma tampered_A_authentic:
  "\<forall>bs' t m. str_encode (sample_ciphertext[135 := of_char CHR ''A'']) = Inr bs'
      \<and> b64decode bs' = Inr t \<and> fernet_decrypt stub_fernet t = Some m
    \<longrightarrow> m = map of_char ''hi''"
proof (intro allI impI, elim conjE)
  fix bs' t m
  have a: "\<forall>ch\<in>set (sample_ciphertext[135 := of_char CHR ''A'']). ch < 128"
    by (rule sample_update_ascii) simp
  assume "str_encode (sample_ciphertext[135 := of_char CHR ''A'']) = Inr bs'"
  then have bs': "bs' = map of_nat (sample_ciphertext[135 := of_char CHR ''A''])"
    unfolding str_encode_ascii [OF a] by simp
  assume "b64decode bs' = Inr t"
  then have False
    unfolding bs' b64decode_ascii [OF a] tampered_pad_fails by simp
  then show "m = map of_char ''hi''" ..
qed

lemma tampered_x_authentic:
  "\<forall>bs' t m. str_encode (sample_ciphertext[46 := of_char CHR ''x'']) = Inr bs'
      \<and> b64decode bs' = Inr t \<and> fernet_decrypt stub_fernet t = Some m
    \<longrightarrow> m = map of_char ''hi''"
proof (intro allI impI, elim conjE)
  fix bs' t m
  have a: "\<forall>ch\<in>set (sample_ciphertext[46 := of_char CHR ''x'']). ch < 128"
    by (rule sample_update_ascii) simp
  assume "str_encode (sample_ciphertext[46 := of_char CHR ''x'']) = Inr bs'"
  then have bs': "bs' = map of_nat (sample_ciphertext[46 := of_char CHR ''x''])"
    unfolding str_encode_ascii [OF a] by simp
  assume "b64decode bs' = Inr t"
  then have t: "t = map of_char ''gAAAAABpCc0QAQIDBAUGBwgJCgsMDQ4PEGlpDg4ODg4ODg4ODg4ODg7s7Ozs7Ozs7Ozs7Ozs7Ozs7Ozs7Ozs7Ozs7Ozs7Ozs7A==''"
    unfolding bs' b64decode_ascii [OF a] tampered_x_decodes
    by (simp only: option.case of_nat_unat_map sum.inject)
  assume "fernet_decrypt stub_fernet t = Some m"
  then have False
    unfolding t fernet_decrypt_stub tampered_x_rejected by simp
  then show "m = map of_char ''hi''" ..
qed

lemma decrypt_text_tampered_A:
  "decrypt_text stub_fernet (sample_ciphertext[135 := of_char CHR ''A''])
     = (ascii ''[Decryption Error]'', [BinasciiError])"
proof -
  have a: "\<forall>ch\<in>set (sample_ciphertext[135 := of_char CHR ''A'']). ch < 128"
    by (rule sample_update_ascii) simp
  have ne: "sample_ciphertext[135 := of_char CHR ''A''] \<noteq> []"
    using length_sample_ciphertext by auto
  have "decrypt_try stub_fernet (sample_ciphertext[135 := of_char CHR ''A''])
      = Inl BinasciiError"
    by (simp only: decrypt_try_ascii [OF a] tampered_pad_fails option.case)
  then show ?thesis
    using ne by (simp add: decrypt_text_def sentinel_def)
qed

lemma decrypt_text_tampered_x:
  "decrypt_text stub_fernet (sample_ciphertext[46 := of_char CHR ''x''])
     = (ascii ''[Decryption Error]'', [InvalidToken])"
proof -
  have a: "\<forall>ch\<in>set (sample_ciphertext[46 := of_char CHR ''x'']). ch < 128"
    by (rule sample_update_ascii) simp
  have ne: "sample_ciphertext[46 := of_char CHR ''x''] \<noteq> []"
    using length_sample_ciphertext by auto
  have r: "fernet_decrypt stub_fernet (map of_char ''gAAAAABpCc0QAQIDBAUGBwgJCgsMDQ4PEGlpDg4ODg4ODg4ODg4ODg7s7Ozs7Ozs7Ozs7Ozs7Ozs7Ozs7Ozs7Ozs7Ozs7Ozs7A=='') = None"
    unfolding fernet_decrypt_stub by (rule tampered_x_rejected)
  have "decrypt_try stub_fernet (sample_ciphertext[46 := of_char CHR ''x''])
      = Inl InvalidToken"
    by (simp only: decrypt_try_ascii [OF a] tampered_x_decodes option.case of_nat_unat_map r)
  then show ?thesis
    using ne by (simp add: decrypt_text_def sentinel_def)
qed

lemma tampered_pad_char_decodes:
  "a2b_base64 0 0 0 (sample_ciphertext[134 := of_char CHR ''A'']) =
     Some (map unat (map of_char ''gAAAAABpCc0QAQIDBAUGBwgJCgsMDQ4PEGhpDg4ODg4ODg4ODg4ODg7s7Ozs7Ozs7Ozs7Ozs7Ozs7Ozs7Ozs7Ozs7Ozs7Ozs7A=='' @ [0] :: byte list))"
  unfolding sample_ciphertext_eq
  by (simp add: ascii_def a2b_def BASE64_PAD_def)

lemma tampered_pad_char_accepted:
  "stub_decrypt (map of_char ''gAAAAABpCc0QAQIDBAUGBwgJCgsMDQ4PEGhpDg4ODg4ODg4ODg4ODg7s7Ozs7Ozs7Ozs7Ozs7Ozs7Ozs7Ozs7Ozs7Ozs7Ozs7A=='' @ [0])
     = Some (map of_char ''hi'')"
  by (simp add: stub_decrypt_def urlsafe_b64decode_def b64decode_def a2b_def BASE64_PAD_def
      stub_tag_def replicate_numeral pkcs7_unpad_def)

lemma tampered_pad_char_authentic:
  "\<forall>bs' t m. str_encode (sample_ciphertext[134 := of_char CHR ''A'']) = Inr bs'
      \<and> b64decode bs' = Inr t \<and> fernet_decrypt stub_fernet t = Some m
    \<longrightarrow> m = map of_char ''hi''"
proof (intro allI impI, elim conjE)
  fix bs' t m
  have a: "\<forall>ch\<in>set (sample_ciphertext[134 := of_char CHR ''A'']). ch < 128"
    by (rule sample_update_ascii) simp
  assume "str_encode (sample_ciphertext[134 := of_char CHR ''A'']) = Inr bs'"
  then have bs': "bs' = map of_nat (sample_ciphertext[134 := of_char CHR ''A''])"
    unfolding str_encode_ascii [OF a] by simp
  assume "b64decode bs' = Inr t"
  then have t: "t = map of_char ''gAAAAABpCc0QAQIDBAUGBwgJCgsMDQ4PEGhpDg4ODg4ODg4ODg4ODg7s7Ozs7Ozs7Ozs7Ozs7Ozs7Ozs7Ozs7Ozs7Ozs7Ozs7A=='' @ [0]"
    unfolding bs' b64decode_ascii [OF a] tampered_pad_char_decodes
    by (simp only: option.case of_nat_unat_map sum.inject)
  assume "fernet_decrypt stub_fernet t = Some m"
  then show "m = map of_char ''hi''"
    unfolding t fernet_decrypt_stub tampered_pad_char_accepted by simp
qed

lemma tampered_pad_char_token:
  "\<exists>bs' t. str_encode (sample_ciphertext[134 := of_char CHR ''A'']) = Inr bs'
      \<and> b64decode bs' = Inr t \<and> fernet_decrypt stub_fernet t \<noteq> None
      \<and> t \<noteq> fernet_encrypt stub_fernet (map of_char ''hi'') stub_entropy"
proof (intro exI conjI)
  have a: "\<forall>ch\<in>set (sample_ciphertext[134 := of_char CHR ''A'']). ch < 128"
    by (rule sample_update_ascii) simp
  show "str_encode (sample_ciphertext[134 := of_char CHR ''A''])
      = Inr (map of_nat (sample_ciphertext[134 := of_char CHR ''A'']))"
    by (rule str_encode_ascii [OF a])
  show "b64decode (map of_nat (sample_ciphertext[134 := of_char CHR ''A'']))
      = Inr (map of_char ''gAAAAABpCc0QAQIDBAUGBwgJCgsMDQ4PEGhpDg4ODg4ODg4ODg4ODg7s7Ozs7Ozs7Ozs7Ozs7Ozs7Ozs7Ozs7Ozs7Ozs7Ozs7A=='' @ [0])"
    unfolding b64decode_ascii [OF a] tampered_pad_char_decodes
    by (simp only: option.case of_nat_unat_map)
  show "fernet_decrypt stub_fernet (map of_char ''gAAAAABpCc0QAQIDBAUGBwgJCgsMDQ4PEGhpDg4ODg4ODg4ODg4ODg7s7Ozs7Ozs7Ozs7Ozs7Ozs7Ozs7Ozs7Ozs7Ozs7Ozs7A=='' @ [0])
      \<noteq> None"
    unfolding fernet_decrypt_stub tampered_pad_char_accepted by simp
  have "fernet_encrypt stub_fernet (map of_char ''hi'') stub_entropy
      = stub_encrypt (map of_char ''hi'') stub_entropy"
    by (simp add: stub_fernet_def)
  then show "map of_char ''gAAAAABpCc0QAQIDBAUGBwgJCgsMDQ4PEGhpDg4ODg4ODg4ODg4ODg7s7Ozs7Ozs7Ozs7Ozs7Ozs7Ozs7Ozs7Ozs7Ozs7Ozs7A=='' @ [0]
      \<noteq> fernet_encrypt stub_fernet (map of_char ''hi'') stub_entropy"
    unfolding stub_token_hi by simp
qed

section \<open>Empty input\<close>

text \<open>
  C9. \<open>encrypt_text\<close> of the empty string (or of \<open>None\<close>) is the empty string and
  \<open>decrypt_text\<close> of the empty string is the empty string, whatever the cipher is:
  neither calls it, and \<open>decrypt_text\<close> prints nothing. So a row whose stored
  ciphertext is empty has an empty field in its view.
\<close>

theorem empty_is_empty:
  "encrypt_text ciph e (PStr []) = Inr [] \<and> encrypt_text ciph e PNone = Inr []
   \<and> decrypt_text ciph [] = ([], [])
   \<and> title (fst (to_dict ciph (n\<lparr>title_encrypted := []\<rparr>))) = []
   \<and> content (fst (to_dict ciph (n\<lparr>content_encrypted := []\<rparr>))) = []"
  by (simp add: encrypt_text_def decrypt_text_def to_dict_def)

section \<open>Round trip\<close>

text \<open>
  C1, as amended. For every non-empty string \<open>s\<close> with no lone surrogate, and a cipher
  that returns a non-empty token for the UTF-8 bytes of \<open>s\<close> and decrypts that token
  to those bytes, \<open>encrypt_text\<close> returns a ciphertext and \<open>decrypt_text\<close> of it is
  \<open>s\<close>, with nothing printed.
\<close>

theorem encrypt_decrypt_round_trip:
  assumes "s \<noteq> []" "wf_str s" "\<not> has_surrogate s"
    and "\<forall>bs. str_encode s = Inr bs \<longrightarrow> fernet_round_trip ciph e bs"
  shows "\<exists>c. encrypt_text ciph e (PStr s) = Inr c \<and> decrypt_text ciph c = (s, [])"
proof -
  from assms(2,3) obtain bs where bs: "str_encode s = Inr bs"
    using str_encode_total by blast
  with assms(4) have rt: "fernet_round_trip ciph e bs" by blast
  show ?thesis
    using encrypt_text_str [OF assms(1) bs] decrypt_text_of_encrypt_text [OF assms(1) bs rt]
    by simp
qed

text \<open>
  The theorem at the four code points of \<open>h\<close>, \<open>e\<close> with an acute accent, the euro
  sign and an emoji (one, two, three and four bytes of UTF-8), under the stand-in.
\<close>

theorem encrypt_decrypt_round_trip_witness:
  "[0x68, 0xE9, 0x20AC, 0x1F600] \<noteq> ([] :: pystr)
   \<and> wf_str [0x68, 0xE9, 0x20AC, 0x1F600]
   \<and> \<not> has_surrogate [0x68, 0xE9, 0x20AC, 0x1F600]
   \<and> str_encode [0x68, 0xE9, 0x20AC, 0x1F600]
       = Inr [0x68, 0xC3, 0xA9, 0xE2, 0x82, 0xAC, 0xF0, 0x9F, 0x98, 0x80]
   \<and> fernet_round_trip stub_fernet stub_entropy
         [0x68, 0xC3, 0xA9, 0xE2, 0x82, 0xAC, 0xF0, 0x9F, 0x98, 0x80]
   \<and> (\<exists>c. encrypt_text stub_fernet stub_entropy (PStr [0x68, 0xE9, 0x20AC, 0x1F600]) = Inr c
          \<and> decrypt_text stub_fernet c = ([0x68, 0xE9, 0x20AC, 0x1F600], []))"
proof -
  have h1: "[0x68, 0xE9, 0x20AC, 0x1F600] \<noteq> ([] :: pystr)" by simp
  have h2: "wf_str [0x68, 0xE9, 0x20AC, 0x1F600]" by (simp add: wf_str_def)
  have h3: "\<not> has_surrogate [0x68, 0xE9, 0x20AC, 0x1F600]" by (simp add: has_surrogate_def)
  have rt: "fernet_round_trip stub_fernet stub_entropy bs" for bs
    by (rule stub_fernet_round_trip) (simp add: stub_entropy_def)
  then have h4: "\<forall>bs. str_encode [0x68, 0xE9, 0x20AC, 0x1F600] = Inr bs
      \<longrightarrow> fernet_round_trip stub_fernet stub_entropy bs"
    by simp
  have h5: "str_encode [0x68, 0xE9, 0x20AC, 0x1F600]
       = Inr [0x68, 0xC3, 0xA9, 0xE2, 0x82, 0xAC, 0xF0, 0x9F, 0x98, 0x80]"
    by (simp add: str_encode_def utf8_char_def)
  show ?thesis
    using h1 h2 h3 h5 rt encrypt_decrypt_round_trip [OF h1 h2 h3 h4] by blast
qed

text \<open>
  C1 as stated fails: the one-character string of the lone surrogate \<open>0xD800\<close> (what
  the JSON text \<open>"\ud800"\<close> parses to) is not empty, and \<open>encrypt_text\<close> raises
  UnicodeEncodeError on it, so there is nothing to decrypt.
\<close>

theorem lone_surrogate_counterexample:
  "[0xD800] \<noteq> ([] :: pystr) \<and> wf_str [0xD800]
   \<and> encrypt_text stub_fernet stub_entropy (PStr [0xD800]) = Inl UnicodeEncodeError"
  by (simp add: wf_str_def encrypt_text_def str_encode_def utf8_char_def)

section \<open>Fail-soft decryption\<close>

text \<open>
  C2. \<open>decrypt_text\<close> returns for every stored text: its result is either a plaintext
  with nothing printed or the string \<open>[Decryption Error]\<close> with one line printed. For
  a non-empty \<open>x\<close>, whichever step of the \<open>try\<close> fails with \<open>e\<close> (encoding \<open>x\<close>, decoding
  its base64, the cipher rejecting the token, decoding the plaintext as UTF-8), the
  result is \<open>[Decryption Error]\<close> and the line printed is that of \<open>e\<close>. A row with
  \<open>x\<close> as its title, or as its content, has a view in which that field is
  \<open>[Decryption Error]\<close> and the other field is what \<open>decrypt_text\<close> makes of the other
  column, readable or not. A listing holds the view of every row, in the order of the
  rows: the rows before and after a corrupted one are listed as they are without it.
\<close>

theorem decrypt_text_fail_soft:
  assumes "x \<noteq> []"
    and "str_encode x = Inl e
     \<or> (\<exists>bs. str_encode x = Inr bs \<and> (b64decode bs = Inl e
          \<or> (\<exists>t. b64decode bs = Inr t \<and> ((fernet_decrypt ciph t = None \<and> e = InvalidToken)
                \<or> (\<exists>m. fernet_decrypt ciph t = Some m \<and> bytes_decode m = Inl e)))))"
  shows "decrypt_text ciph x = (ascii ''[Decryption Error]'', [e])
    \<and> (\<forall>n. title_encrypted n = x \<longrightarrow>
          to_dict ciph n =
            (\<lparr>id_v = id_n n, title = ascii ''[Decryption Error]'',
              content = fst (decrypt_text ciph (content_encrypted n)),
              timestamp_v = strftime (timestamp n)\<rparr>,
             e # snd (decrypt_text ciph (content_encrypted n))))
    \<and> (\<forall>n. content_encrypted n = x \<longrightarrow>
          to_dict ciph n =
            (\<lparr>id_v = id_n n, title = fst (decrypt_text ciph (title_encrypted n)),
              content = ascii ''[Decryption Error]'',
              timestamp_v = strftime (timestamp n)\<rparr>,
             snd (decrypt_text ciph (title_encrypted n)) @ [e]))
    \<and> (\<forall>before n after.
          get_notes ciph (before @ n # after) =
            (fst (get_notes ciph before) @ fst (to_dict ciph n) # fst (get_notes ciph after),
             snd (get_notes ciph before) @ snd (to_dict ciph n) @ snd (get_notes ciph after)))
    \<and> (\<forall>notes. map id_v (fst (get_notes ciph notes)) = map id_n notes)
    \<and> (\<forall>y p. y \<noteq> [] \<and> decrypt_try ciph y = Inr p \<longrightarrow> decrypt_text ciph y = (p, []))
    \<and> (\<forall>y. (\<exists>p. decrypt_text ciph y = (p, []))
          \<or> (\<exists>e'. decrypt_text ciph y = (ascii ''[Decryption Error]'', [e'])))"
proof -
  have d: "decrypt_text ciph x = (ascii ''[Decryption Error]'', [e])"
    using assms(1) decrypt_try_failures [OF assms(2)]
    by (simp add: decrypt_text_def sentinel_def)
  have i: "map id_v (fst (get_notes ciph ns)) = map id_n ns" for ns
    by (simp add: get_notes_def to_dict_def comp_def)
  have p: "y \<noteq> [] \<and> decrypt_try ciph y = Inr q \<longrightarrow> decrypt_text ciph y = (q, [])" for y q
    by (simp add: decrypt_text_def)
  have t: "title_encrypted n = x \<longrightarrow>
          to_dict ciph n =
            (\<lparr>id_v = id_n n, title = ascii ''[Decryption Error]'',
              content = fst (decrypt_text ciph (content_encrypted n)),
              timestamp_v = strftime (timestamp n)\<rparr>,
             e # snd (decrypt_text ciph (content_encrypted n)))" for n
    using d by (simp add: to_dict_def)
  have c: "content_encrypted n = x \<longrightarrow>
          to_dict ciph n =
            (\<lparr>id_v = id_n n, title = fst (decrypt_text ciph (title_encrypted n)),
              content = ascii ''[Decryption Error]'',
              timestamp_v = strftime (timestamp n)\<rparr>,
             snd (decrypt_text ciph (title_encrypted n)) @ [e])" for n
    using d by (simp add: to_dict_def)
  have g: "get_notes ciph (before @ n # after) =
            (fst (get_notes ciph before) @ fst (to_dict ciph n) # fst (get_notes ciph after),
             snd (get_notes ciph before) @ snd (to_dict ciph n) @ snd (get_notes ciph after))"
    for before n after
    by (simp add: get_notes_append get_notes_Cons)
  show ?thesis
    using d t c g i p decrypt_text_outcome [of ciph] by blast
qed

text \<open>
  The theorem at the base64 of \<open>hi\<close>, which is no token, in a listing of three rows:
  one readable, one with that text as content, one with it as title beside a content
  that is not base64.
\<close>

theorem decrypt_text_fail_soft_witness:
  "ascii ''aGk='' \<noteq> []
   \<and> str_encode (ascii ''aGk='') = Inr (map of_char ''aGk='')
   \<and> b64decode (map of_char ''aGk='') = Inr (map of_char ''hi'')
   \<and> fernet_decrypt stub_fernet (map of_char ''hi'') = None
   \<and> decrypt_text stub_fernet (ascii ''aGk='') = (ascii ''[Decryption Error]'', [InvalidToken])
   \<and> get_notes stub_fernet
        [\<lparr>id_n = 1, title_encrypted = sample_ciphertext, content_encrypted = [],
          timestamp = utcnow stub_env\<rparr>,
         \<lparr>id_n = 2, title_encrypted = sample_ciphertext, content_encrypted = ascii ''aGk='',
          timestamp = utcnow stub_env\<rparr>,
         \<lparr>id_n = 3, title_encrypted = ascii ''aGk='', content_encrypted = ascii ''A'',
          timestamp = utcnow stub_env\<rparr>]
      = ([\<lparr>id_v = 1, title = ascii ''hi'', content = [],
            timestamp_v = strftime (utcnow stub_env)\<rparr>,
          \<lparr>id_v = 2, title = ascii ''hi'', content = ascii ''[Decryption Error]'',
            timestamp_v = strftime (utcnow stub_env)\<rparr>,
          \<lparr>id_v = 3, title = ascii ''[Decryption Error]'',
            content = ascii ''[Decryption Error]'',
            timestamp_v = strftime (utcnow stub_env)\<rparr>],
         [InvalidToken, InvalidToken, BinasciiError])"
proof -
  have h1: "ascii ''aGk='' \<noteq> []" by (simp add: ascii_def)
  have a: "str_encode (ascii ''aGk='') = Inr (map of_char ''aGk='')"
    by (simp add: str_encode_def ascii_def utf8_char_def)
  have b: "b64decode (map of_char ''aGk='') = Inr (map of_char ''hi'')"
    by (simp add: b64decode_def a2b_def BASE64_PAD_def)
  have c: "fernet_decrypt stub_fernet (map of_char ''hi'') = None"
    by (simp add: stub_fernet_def stub_decrypt_def urlsafe_b64decode_def b64decode_def a2b_def
        BASE64_PAD_def)
  have h2: "str_encode (ascii ''aGk='') = Inl InvalidToken
     \<or> (\<exists>bs. str_encode (ascii ''aGk='') = Inr bs \<and> (b64decode bs = Inl InvalidToken
          \<or> (\<exists>t. b64decode bs = Inr t
                \<and> ((fernet_decrypt stub_fernet t = None \<and> InvalidToken = InvalidToken)
                \<or> (\<exists>m. fernet_decrypt stub_fernet t = Some m
                      \<and> bytes_decode m = Inl InvalidToken)))))"
    using a b c by blast
  note t = decrypt_text_fail_soft [OF h1 h2]
  have d: "decrypt_text stub_fernet (ascii ''aGk='')
      = (ascii ''[Decryption Error]'', [InvalidToken])"
    using t by (rule conjunct1)
  have d0: "decrypt_text stub_fernet [] = ([], [])" by (simp add: decrypt_text_def)
  have n0: "to_dict stub_fernet \<lparr>id_n = 1, title_encrypted = sample_ciphertext,
      content_encrypted = [], timestamp = utcnow stub_env\<rparr> =
      (\<lparr>id_v = 1, title = ascii ''hi'', content = [],
            timestamp_v = strftime (utcnow stub_env)\<rparr>, [])"
    by (simp add: to_dict_def decrypt_text_sample d0)
  have n1: "to_dict stub_fernet \<lparr>id_n = 2, title_encrypted = sample_ciphertext,
      content_encrypted = ascii ''aGk='', timestamp = utcnow stub_env\<rparr> =
      (\<lparr>id_v = 2, title = ascii ''hi'', content = ascii ''[Decryption Error]'',
            timestamp_v = strftime (utcnow stub_env)\<rparr>, [InvalidToken])"
    using t [THEN conjunct2, THEN conjunct2, THEN conjunct1, rule_format,
        of "\<lparr>id_n = 2, title_encrypted = sample_ciphertext,
          content_encrypted = ascii ''aGk='', timestamp = utcnow stub_env\<rparr>"]
    by (simp add: decrypt_text_sample)
  have n2: "to_dict stub_fernet \<lparr>id_n = 3, title_encrypted = ascii ''aGk='',
      content_encrypted = ascii ''A'', timestamp = utcnow stub_env\<rparr> =
      (\<lparr>id_v = 3, title = ascii ''[Decryption Error]'',
            content = ascii ''[Decryption Error]'',
            timestamp_v = strftime (utcnow stub_env)\<rparr>, [InvalidToken, BinasciiError])"
    using t [THEN conjunct2, THEN conjunct1, rule_format,
        of "\<lparr>id_n = 3, title_encrypted = ascii ''aGk='',
          content_encrypted = ascii ''A'', timestamp = utcnow stub_env\<rparr>"]
    by (simp add: decrypt_text_A)
  have g: "get_notes stub_fernet
        [\<lparr>id_n = 1, title_encrypted = sample_ciphertext, content_encrypted = [],
          timestamp = utcnow stub_env\<rparr>,
         \<lparr>id_n = 2, title_encrypted = sample_ciphertext, content_encrypted = ascii ''aGk='',
          timestamp = utcnow stub_env\<rparr>,
         \<lparr>id_n = 3, title_encrypted = ascii ''aGk='', content_encrypted = ascii ''A'',
          timestamp = utcnow stub_env\<rparr>]
      = ([\<lparr>id_v = 1, title = ascii ''hi'', content = [],
            timestamp_v = strftime (utcnow stub_env)\<rparr>,
          \<lparr>id_v = 2, title = ascii ''hi'', content = ascii ''[Decryption Error]'',
            timestamp_v = strftime (utcnow stub_env)\<rparr>,
          \<lparr>id_v = 3, title = ascii ''[Decryption Error]'',
            content = ascii ''[Decryption Error]'',
            timestamp_v = strftime (utcnow stub_env)\<rparr>],
         [InvalidToken, InvalidToken, BinasciiError])"
    unfolding get_notes_Cons n0 n1 n2 by (simp add: get_notes_def)
  show ?thesis
    by (intro conjI h1 a b c d g)
qed

section \<open>Tampering\<close>

text \<open>
  C3, as amended. Let \<open>c\<close> be the ciphertext of a non-empty encodable \<open>s\<close>, under a
  cipher that decrypts its token, and \<open>c[i := v]\<close> the text \<open>c\<close> with the character at
  one index replaced. Suppose the cipher authenticates at the changed text: if that
  text decodes from base64 to a token the cipher accepts, the cipher decrypts it to
  the bytes of \<open>s\<close>. Then \<open>decrypt_text\<close> of the changed text returns either
  \<open>[Decryption Error]\<close>, with one line printed, or \<open>s\<close> itself, never another
  plaintext; and it returns \<open>s\<close> exactly when the changed text still decodes to a token
  the cipher accepts. That case occurs: when the length of the token is 1 modulo 3,
  replacing the last character before the \<open>==\<close> of \<open>c\<close> by any of the 15 other
  characters with the same two high bits gives a different text that decrypts to \<open>s\<close>.
\<close>

theorem tampered_ciphertext:
  assumes "s \<noteq> []" "str_encode s = Inr bs" "fernet_round_trip ciph e bs"
    and "c = b2a_base64 (map unat (fernet_encrypt ciph bs e))"
    and "i < length c"
    and "\<forall>bs' t m. str_encode (c[i := v]) = Inr bs' \<and> b64decode bs' = Inr t
           \<and> fernet_decrypt ciph t = Some m \<longrightarrow> m = bs"
  shows "encrypt_text ciph e (PStr s) = Inr c
    \<and> (decrypt_text ciph (c[i := v]) = (s, [])
        \<or> (\<exists>x. decrypt_text ciph (c[i := v]) = (ascii ''[Decryption Error]'', [x])))
    \<and> (decrypt_text ciph (c[i := v]) = (s, []) \<longleftrightarrow>
          (\<exists>bs' t. str_encode (c[i := v]) = Inr bs' \<and> b64decode bs' = Inr t
             \<and> fernet_decrypt ciph t \<noteq> None))
    \<and> (\<forall>k. 0 < k \<and> k < 16 \<and> length (fernet_encrypt ciph bs e) mod 3 = 1 \<longrightarrow>
           c[length c - 3 := b2a (unat (last (fernet_encrypt ciph bs e)) mod 4 * 16 + k)] \<noteq> c
           \<and> decrypt_text ciph
               (c[length c - 3 := b2a (unat (last (fernet_encrypt ciph bs e)) mod 4 * 16 + k)])
             = (s, []))"
proof -
  have e: "encrypt_text ciph e (PStr s) = Inr c"
    unfolding assms(4) by (rule encrypt_text_str [OF assms(1,2)])
  have ne: "c[i := v] \<noteq> []" using assms(5) by auto
  note a = decrypt_text_authentic [OF assms(1,2) ne assms(6)]
  have k: "\<forall>k. 0 < k \<and> k < 16 \<and> length (fernet_encrypt ciph bs e) mod 3 = 1 \<longrightarrow>
           c[length c - 3 := b2a (unat (last (fernet_encrypt ciph bs e)) mod 4 * 16 + k)] \<noteq> c
           \<and> decrypt_text ciph
               (c[length c - 3 := b2a (unat (last (fernet_encrypt ciph bs e)) mod 4 * 16 + k)])
             = (s, [])"
  proof (intro allI impI)
    fix k :: nat
    assume k: "0 < k \<and> k < 16 \<and> length (fernet_encrypt ciph bs e) mod 3 = 1"
    have tok: "fernet_encrypt ciph bs e \<noteq> []"
      using assms(3) by (simp add: fernet_round_trip_def)
    have la: "last (map unat (fernet_encrypt ciph bs e))
        = unat (last (fernet_encrypt ciph bs e))"
      using tok by (simp add: last_map)
    have "length (map unat (fernet_encrypt ciph bs e)) mod 3 = 1"
      "\<forall>b\<in>set (map unat (fernet_encrypt ciph bs e)). b < 256"
      using k by (simp_all add: unat_byte_less)
    from spare_bits_differ [OF this(1) _ _ this(2), of k] k
    have d: "c[length c - 3 := b2a (unat (last (fernet_encrypt ciph bs e)) mod 4 * 16 + k)]
        \<noteq> c"
      unfolding assms(4) la by simp
    have "decrypt_text ciph
        (c[length c - 3 := b2a (unat (last (fernet_encrypt ciph bs e)) mod 4 * 16 + k)])
        = (s, [])"
      unfolding assms(4)
      using decrypt_text_spare_bits [OF assms(1,2,3), of k] k by simp
    with d show "c[length c - 3 :=
          b2a (unat (last (fernet_encrypt ciph bs e)) mod 4 * 16 + k)] \<noteq> c
        \<and> decrypt_text ciph
            (c[length c - 3 := b2a (unat (last (fernet_encrypt ciph bs e)) mod 4 * 16 + k)])
          = (s, [])"
      by (rule conjI)
  qed
  show ?thesis
    using e a k by blast
qed

text \<open>
  The theorem at the sample ciphertext, with one character replaced at four places:
  \<open>S\<close> for the \<open>Q\<close> at index 133 decodes to the same token and decrypts to \<open>hi\<close>;
  \<open>A\<close> for the last \<open>=\<close> does not decode; \<open>x\<close> at index 46 decodes to another token,
  which the stand-in rejects; \<open>A\<close> for the first \<open>=\<close> decodes to the token followed by
  a zero byte, which the stand-in accepts as it decodes tokens the same way, and
  decrypts to \<open>hi\<close>.
\<close>

theorem tampered_ciphertext_witness:
  "ascii ''hi'' \<noteq> [] \<and> str_encode (ascii ''hi'') = Inr (map of_char ''hi'')
   \<and> fernet_round_trip stub_fernet stub_entropy (map of_char ''hi'')
   \<and> sample_ciphertext =
       b2a_base64 (map unat (fernet_encrypt stub_fernet (map of_char ''hi'') stub_entropy))
   \<and> 133 < length sample_ciphertext \<and> 135 < length sample_ciphertext
   \<and> 46 < length sample_ciphertext \<and> 134 < length sample_ciphertext
   \<and> encrypt_text stub_fernet stub_entropy (PStr (ascii ''hi'')) = Inr sample_ciphertext
   \<and> sample_ciphertext[133 := of_char CHR ''S''] \<noteq> sample_ciphertext
   \<and> decrypt_text stub_fernet (sample_ciphertext[133 := of_char CHR ''S'']) = (ascii ''hi'', [])
   \<and> decrypt_text stub_fernet (sample_ciphertext[135 := of_char CHR ''A''])
       = (ascii ''[Decryption Error]'', [BinasciiError])
   \<and> decrypt_text stub_fernet (sample_ciphertext[46 := of_char CHR ''x''])
       = (ascii ''[Decryption Error]'', [InvalidToken])
   \<and> sample_ciphertext[134 := of_char CHR ''A''] \<noteq> sample_ciphertext
   \<and> (\<exists>bs' t. str_encode (sample_ciphertext[134 := of_char CHR ''A'']) = Inr bs'
        \<and> b64decode bs' = Inr t \<and> fernet_decrypt stub_fernet t \<noteq> None
        \<and> t \<noteq> fernet_encrypt stub_fernet (map of_char ''hi'') stub_entropy)
   \<and> decrypt_text stub_fernet (sample_ciphertext[134 := of_char CHR ''A'']) = (ascii ''hi'', [])"
proof -
  have l: "133 < length sample_ciphertext" "135 < length sample_ciphertext"
    "46 < length sample_ciphertext" "134 < length sample_ciphertext"
    by (simp_all add: length_sample_ciphertext)
  note tS = tampered_ciphertext [OF ascii_hi_not_Nil str_encode_hi round_trip_hi
      sample_ciphertext_b2a l(1) tampered_S_authentic]
  note tA = tampered_ciphertext [OF ascii_hi_not_Nil str_encode_hi round_trip_hi
      sample_ciphertext_b2a l(2) tampered_A_authentic]
  note tx = tampered_ciphertext [OF ascii_hi_not_Nil str_encode_hi round_trip_hi
      sample_ciphertext_b2a l(3) tampered_x_authentic]
  note tP = tampered_ciphertext [OF ascii_hi_not_Nil str_encode_hi round_trip_hi
      sample_ciphertext_b2a l(4) tampered_pad_char_authentic]
  have e: "encrypt_text stub_fernet stub_entropy (PStr (ascii ''hi'')) = Inr sample_ciphertext"
    using tS by (rule conjunct1)
  have a: "\<forall>ch\<in>set (sample_ciphertext[133 := of_char CHR ''S'']). ch < 128"
    by (rule sample_update_ascii) simp
  have acc: "\<exists>bs' t. str_encode (sample_ciphertext[133 := of_char CHR ''S'']) = Inr bs'
      \<and> b64decode bs' = Inr t \<and> fernet_decrypt stub_fernet t \<noteq> None"
  proof (intro exI conjI)
    show "str_encode (sample_ciphertext[133 := of_char CHR ''S''])
        = Inr (map of_nat (sample_ciphertext[133 := of_char CHR ''S'']))"
      by (rule str_encode_ascii [OF a])
    show "b64decode (map of_nat (sample_ciphertext[133 := of_char CHR ''S'']))
        = Inr (stub_encrypt (map of_char ''hi'') stub_entropy)"
      unfolding b64decode_ascii [OF a] tampered_S_decodes
      by (simp only: option.case of_nat_unat_map)
    show "fernet_decrypt stub_fernet (stub_encrypt (map of_char ''hi'') stub_entropy) \<noteq> None"
      unfolding stub_decrypt_token_hi by simp
  qed
  have dS: "decrypt_text stub_fernet (sample_ciphertext[133 := of_char CHR ''S''])
      = (ascii ''hi'', [])"
    using tS [THEN conjunct2, THEN conjunct2, THEN conjunct1] acc by (rule iffD2)
  have "sample_ciphertext ! 133 = of_char CHR ''Q''"
    unfolding sample_ciphertext_eq by (simp add: ascii_def)
  then have "(sample_ciphertext[133 := of_char CHR ''S'']) ! 133 \<noteq> sample_ciphertext ! 133"
    using l(1) by simp
  then have neq: "sample_ciphertext[133 := of_char CHR ''S''] \<noteq> sample_ciphertext"
    by metis
  have dA: "decrypt_text stub_fernet (sample_ciphertext[135 := of_char CHR ''A''])
       = (ascii ''[Decryption Error]'', [BinasciiError])"
    using tA [THEN conjunct2, THEN conjunct1] decrypt_text_tampered_A by simp
  have dx: "decrypt_text stub_fernet (sample_ciphertext[46 := of_char CHR ''x''])
       = (ascii ''[Decryption Error]'', [InvalidToken])"
    using tx [THEN conjunct2, THEN conjunct1] decrypt_text_tampered_x by simp
  have accP: "\<exists>bs' t. str_encode (sample_ciphertext[134 := of_char CHR ''A'']) = Inr bs'
      \<and> b64decode bs' = Inr t \<and> fernet_decrypt stub_fernet t \<noteq> None"
    using tampered_pad_char_token by blast
  have dP: "decrypt_text stub_fernet (sample_ciphertext[134 := of_char CHR ''A''])
      = (ascii ''hi'', [])"
    using tP [THEN conjunct2, THEN conjunct2, THEN conjunct1] accP by (rule iffD2)
  have "sample_ciphertext ! 134 = of_char CHR ''=''"
    unfolding sample_ciphertext_eq by (simp add: ascii_def)
  then have "(sample_ciphertext[134 := of_char CHR ''A'']) ! 134 \<noteq> sample_ciphertext ! 134"
    using l(4) by simp
  then have neqP: "sample_ciphertext[134 := of_char CHR ''A''] \<noteq> sample_ciphertext"
    by metis
  show ?thesis
    by (intro conjI ascii_hi_not_Nil str_encode_hi round_trip_hi sample_ciphertext_b2a l e neq
        dS dA dx neqP tampered_pad_char_token dP)
qed

text \<open>
  C3 as stated fails: the sample ciphertext is the ciphertext of \<open>hi\<close>, has \<open>Q\<close> at
  index 133, and with \<open>R\<close> there instead it decrypts to \<open>hi\<close>, not to \<open>[Decryption Error]\<close>.
\<close>

theorem tampered_byte_counterexample:
  "encrypt_text stub_fernet stub_entropy (PStr (ascii ''hi'')) = Inr sample_ciphertext
   \<and> length sample_ciphertext = 136
   \<and> sample_ciphertext ! 133 = of_char CHR ''Q''
   \<and> decrypt_text stub_fernet (sample_ciphertext[133 := of_char CHR ''R'']) = (ascii ''hi'', [])
   \<and> ascii ''hi'' \<noteq> ascii ''[Decryption Error]''"
proof -
  have "sample_ciphertext ! 133 = of_char CHR ''Q''"
    unfolding sample_ciphertext_eq by (simp add: ascii_def)
  moreover have "ascii ''hi'' \<noteq> ascii ''[Decryption Error]''" by (simp add: ascii_def)
  ultimately show ?thesis
    using encrypt_text_hi length_sample_ciphertext decrypt_text_tampered_R by simp
qed

section \<open>What the routes return\<close>

lemma encrypt_field_PDict:
  "encrypt_field ciph e (PDict kvs) k d =
     encrypt_text ciph e (case map_of kvs k of None \<Rightarrow> d | Some v \<Rightarrow> v)"
  by (simp add: encrypt_field_def)

lemma find_None_iff_id: "find (\<lambda>n. id_n n = i) st = None \<longleftrightarrow> i \<notin> id_n ` set st"
  by (auto simp: find_None_iff)

lemma find_Some_id: "find (\<lambda>n. id_n n = i) st = Some note \<Longrightarrow> id_n note = i"
  by (auto simp: find_Some_iff)

lemma update_note_missing:
  "note_id \<notin> id_n ` set st \<Longrightarrow> update_note ciph env note_id data st = (Inl NotFound, st, [])"
  using find_None_iff_id [of note_id st] by (simp add: update_note_def)



lemma update_note_found:
  assumes "find (\<lambda>n. id_n n = note_id) st = Some note"
    and "from_dict ciph env data = Inr (t, c)"
  shows "update_note ciph env note_id data st =
      (Inr \<lparr>id_v = note_id, title = fst (decrypt_text ciph t),
             content = fst (decrypt_text ciph c), timestamp_v = strftime (utcnow env)\<rparr>,
       map (\<lambda>n. if id_n n = note_id
                 then n\<lparr>title_encrypted := t, content_encrypted := c, timestamp := utcnow env\<rparr>
                 else n) st,
       snd (decrypt_text ciph t) @ snd (decrypt_text ciph c))"
  using assms find_Some_id [OF assms(1)]
  by (auto simp: update_note_def from_dict_def to_dict_def Let_def split: sum.splits)

lemma create_note_accepted:
  assumes "from_dict ciph env data = Inr (t, c)"
  shows "create_note ciph env data st =
      (Inr \<lparr>id_v = new_id env, title = fst (decrypt_text ciph t),
             content = fst (decrypt_text ciph c), timestamp_v = strftime (utcnow env)\<rparr>,
       st @ [\<lparr>id_n = new_id env, title_encrypted = t, content_encrypted = c,
               timestamp = utcnow env\<rparr>],
       snd (decrypt_text ciph t) @ snd (decrypt_text ciph c))"
  using assms by (simp add: create_note_def to_dict_def Let_def)

lemma from_dict_PDict:
  "from_dict ciph env (PDict kvs) = Inr (t, c) \<longleftrightarrow>
     encrypt_field ciph (entropy_title env) (PDict kvs) (ascii ''title'')
         (PStr (ascii ''Untitled'')) = Inr t
     \<and> encrypt_field ciph (entropy_content env) (PDict kvs) (ascii ''content'') (PStr []) = Inr c"
  by (auto simp: from_dict_def split: sum.splits)

lemma update_note_present:
  assumes "note_id \<in> id_n ` set st"
    and "from_dict ciph env data = Inr (t, c)"
  shows "update_note ciph env note_id data st =
      (Inr \<lparr>id_v = note_id, title = fst (decrypt_text ciph t),
             content = fst (decrypt_text ciph c), timestamp_v = strftime (utcnow env)\<rparr>,
       map (\<lambda>n. if id_n n = note_id
                 then n\<lparr>title_encrypted := t, content_encrypted := c, timestamp := utcnow env\<rparr>
                 else n) st,
       snd (decrypt_text ciph t) @ snd (decrypt_text ciph c))"
proof -
  from assms(1) obtain row where f: "find (\<lambda>n. id_n n = note_id) st = Some row"
    using find_None_iff_id [of note_id st] by (cases "find (\<lambda>n. id_n n = note_id) st") auto
  show ?thesis by (rule update_note_found [OF f assms(2)])
qed

lemma from_dict_hi:
  assumes "entropy_title env = stub_entropy"
  shows "from_dict stub_fernet env (PDict [(ascii ''title'', PStr (ascii ''hi''))])
     = Inr (sample_ciphertext, [])"
proof -
  have k: "ascii ''content'' \<noteq> ascii ''title''" by (simp add: ascii_def)
  show ?thesis
    unfolding from_dict_PDict encrypt_field_PDict assms
    using k by (simp add: encrypt_text_hi encrypt_text_falsy)
qed

lemma entropy_title_stub_env:
  "entropy_title (stub_env\<lparr>utcnow := (2026, 11, 5, 8, 0, 0, 0)\<rparr>) = stub_entropy"
  "entropy_title stub_env = stub_entropy"
  by (simp_all add: stub_env_def)

lemma str_encode_Untitled:
  "str_encode (ascii ''Untitled'') = Inr (map of_char ''Untitled'')"
  by (simp add: str_encode_def ascii_def utf8_char_def)

lemma ascii_Untitled_not_Nil: "ascii ''Untitled'' \<noteq> []"
  by (simp add: ascii_def)

section \<open>Orderings of the listing\<close>

lemma order_by_strict:
  assumes "order_by_timestamp_desc st notes"
    and "sorted_wrt (\<lambda>a b. timestamp a < timestamp b) st"
  shows "notes = rev st"
proof -
  from assms(1) have m: "mset notes = mset st"
    and s: "sorted_wrt (\<lambda>a b. timestamp a \<ge> timestamp b) notes"
    by (simp_all add: order_by_timestamp_desc_def)
  have "sorted_wrt (<) (map timestamp st)"
    using assms(2) by (simp add: sorted_wrt_map)
  then have st: "sorted (map timestamp st)" "distinct (map timestamp st)"
    by (simp_all add: strict_sorted_iff)
  have mm: "mset (map timestamp (rev notes)) = mset (map timestamp st)"
    using m by simp
  then have d: "distinct (map timestamp (rev notes))"
    using st(2) mset_eq_imp_distinct_iff by blast
  have "sorted_wrt (\<lambda>x y. y \<le> x) (map timestamp notes)"
    using s by (simp add: sorted_wrt_map)
  then have so: "sorted (map timestamp (rev notes))"
    by (simp add: rev_map [symmetric] sorted_wrt_rev)
  have "set (map timestamp (rev notes)) = set (map timestamp st)"
    using mm by (rule mset_eq_setD)
  then have eq: "map timestamp (rev notes) = map timestamp st"
    using so d st by (intro sorted_distinct_set_unique)
  have "set (rev notes) = set st" using mset_eq_setD [OF m] by simp
  moreover have "inj_on timestamp (set st)" using st(2) by (simp add: distinct_map)
  ultimately have "rev notes = st"
    using eq by (intro map_inj_on [of timestamp]) simp_all
  then have "rev (rev notes) = rev st" by (rule arg_cong)
  then show ?thesis by simp
qed

lemma order_by_rev:
  "sorted_wrt (\<lambda>a b. timestamp a \<le> timestamp b) st \<Longrightarrow> order_by_timestamp_desc st (rev st)"
  by (simp add: order_by_timestamp_desc_def sorted_wrt_rev)

section \<open>What the routes store\<close>

lemma encrypt_text_output:
  assumes "encrypt_text ciph e v = Inr t"
  shows "t = [] \<or> (\<exists>s bs. s \<noteq> [] \<and> str_encode s = Inr bs
      \<and> t = b2a_base64 (map unat (fernet_encrypt ciph bs e)))"
proof (cases "truthy v")
  case False
  then show ?thesis using assms by (simp add: encrypt_text_def)
next
  case True
  with assms obtain s where v: "v = PStr s"
    by (cases v) (simp_all add: encrypt_text_def)
  with True have s: "s \<noteq> []" by simp
  from assms v s obtain bs where bs: "str_encode s = Inr bs"
    by (cases "str_encode s") (simp_all add: encrypt_text_def)
  from assms show ?thesis
    unfolding v encrypt_text_str [OF s bs] using s bs by blast
qed

lemma encrypt_field_output:
  assumes "encrypt_field ciph e data k d = Inr t"
  shows "t = [] \<or> (\<exists>s bs. s \<noteq> [] \<and> str_encode s = Inr bs
      \<and> t = b2a_base64 (map unat (fernet_encrypt ciph bs e)))"
  using assms encrypt_text_output [of ciph e _ t]
  by (auto simp: encrypt_field_def split: sum.splits)

lemma from_dict_title:
  assumes "from_dict ciph env data = Inr (t, c)"
  shows "encrypt_field ciph (entropy_title env) data (ascii ''title'')
      (PStr (ascii ''Untitled'')) = Inr t"
  using assms by (auto simp: from_dict_def split: sum.splits)

lemma create_note_rows:
  assumes "create_note ciph env data st = (r, st', out)" "n \<in> set st'"
  shows "n \<in> set st \<or> (\<exists>t. encrypt_field ciph (entropy_title env) data (ascii ''title'')
      (PStr (ascii ''Untitled'')) = Inr t \<and> title_encrypted n = t)"
proof (cases "from_dict ciph env data")
  case (Inl x)
  with assms show ?thesis by (simp add: create_note_def)
next
  case (Inr p)
  obtain t c where p: "p = (t, c)" by (cases p)
  from assms show ?thesis
    using from_dict_title [OF Inr [unfolded p]]
    by (auto simp: create_note_accepted [OF Inr [unfolded p]])
qed

lemma update_note_rows:
  assumes "update_note ciph env note_id data st = (r, st', out)" "n \<in> set st'"
  shows "n \<in> set st \<or> (\<exists>t. encrypt_field ciph (entropy_title env) data (ascii ''title'')
      (PStr (ascii ''Untitled'')) = Inr t \<and> title_encrypted n = t)"
  using assms
  by (auto simp: update_note_def Let_def split: option.splits sum.splits if_splits)

lemma delete_note_rows:
  assumes "delete_note note_id st = (r, st')" "n \<in> set st'"
  shows "n \<in> set st"
  using assms by (auto simp: delete_note_def split: option.splits)

lemma create_note_hi:
  "create_note stub_fernet stub_env (PDict [(ascii ''title'', PStr (ascii ''hi''))]) [] =
     (Inr \<lparr>id_v = 1, title = ascii ''hi'', content = [],
            timestamp_v = strftime (utcnow stub_env)\<rparr>,
      [\<lparr>id_n = 1, title_encrypted = sample_ciphertext, content_encrypted = [],
         timestamp = utcnow stub_env\<rparr>],
      [])"
proof -
  have n: "new_id stub_env = 1" by (simp add: stub_env_def)
  have d0: "decrypt_text stub_fernet [] = ([], [])" by (simp add: decrypt_text_def)
  show ?thesis
    unfolding create_note_accepted [OF from_dict_hi [OF entropy_title_stub_env(2)]]
    by (simp add: n d0 decrypt_text_sample)
qed

lemma create_note_empty_title:
  "create_note stub_fernet stub_env (PDict [(ascii ''title'', PStr [])]) [] =
     (Inr \<lparr>id_v = 1, title = [], content = [], timestamp_v = strftime (utcnow stub_env)\<rparr>,
      [\<lparr>id_n = 1, title_encrypted = [], content_encrypted = [],
         timestamp = utcnow stub_env\<rparr>],
      [])"
proof -
  have k: "ascii ''content'' \<noteq> ascii ''title''" by (simp add: ascii_def)
  have f: "from_dict stub_fernet stub_env (PDict [(ascii ''title'', PStr [])]) = Inr ([], [])"
    unfolding from_dict_PDict encrypt_field_PDict using k by (simp add: encrypt_text_falsy)
  have n: "new_id stub_env = 1" by (simp add: stub_env_def)
  have d0: "decrypt_text stub_fernet [] = ([], [])" by (simp add: decrypt_text_def)
  show ?thesis
    unfolding create_note_accepted [OF f] by (simp add: n d0)
qed

section \<open>Requests the routes reject or accept\<close>

lemma create_note_rejected:
  "from_dict ciph env d = Inl x \<Longrightarrow> create_note ciph env d st = (Inl x, st, [])"
  by (simp add: create_note_def)

lemma update_note_rejected:
  assumes "note_id \<in> id_n ` set st"
    and "from_dict ciph env d = Inl x"
  shows "update_note ciph env note_id d st = (Inl x, st, [])"
proof -
  from assms(1) obtain row where f: "find (\<lambda>n. id_n n = note_id) st = Some row"
    using find_None_iff_id [of note_id st] by (cases "find (\<lambda>n. id_n n = note_id) st") auto
  show ?thesis
  proof (cases "encrypt_field ciph (entropy_title env) d (ascii ''title'')
      (PStr (ascii ''Untitled''))")
    case (Inl y)
    with assms(2) have "y = x" by (simp add: from_dict_def)
    with Inl f show ?thesis by (simp add: update_note_def)
  next
    case t: (Inr t)
    show ?thesis
    proof (cases "encrypt_field ciph (entropy_content env) d (ascii ''content'') (PStr [])")
      case (Inl y)
      with assms(2) t have "y = x" by (simp add: from_dict_def)
      with Inl t f show ?thesis by (simp add: update_note_def)
    next
      case (Inr c)
      with assms(2) t show ?thesis by (simp add: from_dict_def)
    qed
  qed
qed

lemma encrypt_text_Nil_iff:
  assumes "encrypt_text ciph e v = Inr t" "\<forall>bs. fernet_encrypt ciph bs e \<noteq> []"
  shows "t = [] \<longleftrightarrow> \<not> truthy v"
proof (cases "truthy v")
  case False
  then show ?thesis using assms(1) by (simp add: encrypt_text_def)
next
  case True
  with assms(1) obtain s where v: "v = PStr s"
    by (cases v) (simp_all add: encrypt_text_def)
  with True have s: "s \<noteq> []" by simp
  from assms(1) v s obtain bs where bs: "str_encode s = Inr bs"
    by (cases "str_encode s") (simp_all add: encrypt_text_def)
  from assms(1) have "t = b2a_base64 (map unat (fernet_encrypt ciph bs e))"
    unfolding v encrypt_text_str [OF s bs] by simp
  then have "t \<noteq> []" using assms(2) by (simp add: b2a_base64_Nil)
  with True show ?thesis by simp
qed

lemma title_Nil_iff:
  assumes "from_dict ciph env (PDict kvs) = Inr (t, c)"
    and "\<forall>bs. fernet_encrypt ciph bs (entropy_title env) \<noteq> []"
  shows "t = [] \<longleftrightarrow> (\<exists>v. map_of kvs (ascii ''title'') = Some v \<and> \<not> truthy v)"
proof -
  from assms(1) have e: "encrypt_text ciph (entropy_title env)
      (case map_of kvs (ascii ''title'') of None \<Rightarrow> PStr (ascii ''Untitled'') | Some v \<Rightarrow> v)
      = Inr t"
    by (simp add: from_dict_PDict encrypt_field_PDict)
  have u: "truthy (PStr (ascii ''Untitled''))" by (simp add: ascii_def)
  show ?thesis
    unfolding encrypt_text_Nil_iff [OF e assms(2)]
    using u by (cases "map_of kvs (ascii ''title'')") simp_all
qed

lemma create_note_Inr:
  assumes "create_note ciph env data st = (Inr r, st', out)"
  obtains t c where "from_dict ciph env data = Inr (t, c)"
proof (cases "from_dict ciph env data")
  case (Inl x)
  from create_note_rejected [OF Inl, of st] assms show ?thesis by simp
next
  case (Inr p)
  then show ?thesis using that by (cases p) auto
qed

lemma update_note_Inr:
  assumes "update_note ciph env note_id data st = (Inr r, st', out)"
  obtains t c where "from_dict ciph env data = Inr (t, c)" "note_id \<in> id_n ` set st"
proof -
  have i: "note_id \<in> id_n ` set st"
  proof (rule ccontr)
    assume "note_id \<notin> id_n ` set st"
    from update_note_missing [OF this, of ciph env data] assms show False by simp
  qed
  show thesis
  proof (cases "from_dict ciph env data")
    case (Inl x)
    from update_note_rejected [OF i Inl] assms show ?thesis by simp
  next
    case (Inr p)
    then show ?thesis using that i by (cases p) auto
  qed
qed

lemma create_note_title_Nil_iff:
  assumes "create_note ciph env (PDict kvs) st0 = (Inr r, st1, out)"
    and "\<forall>bs. fernet_encrypt ciph bs (entropy_title env) \<noteq> []"
  shows "\<exists>m. st1 = st0 @ [m] \<and> id_n m = new_id env
    \<and> (title_encrypted m = []
        \<longleftrightarrow> (\<exists>v. map_of kvs (ascii ''title'') = Some v \<and> \<not> truthy v))"
proof -
  from assms(1) obtain t c where f: "from_dict ciph env (PDict kvs) = Inr (t, c)"
    by (rule create_note_Inr)
  from assms(1) have "st1 = st0 @ [\<lparr>id_n = new_id env, title_encrypted = t,
      content_encrypted = c, timestamp = utcnow env\<rparr>]"
    unfolding create_note_accepted [OF f] by simp
  then show ?thesis
    using title_Nil_iff [OF f assms(2)] by simp
qed

lemma update_note_title_Nil_iff:
  assumes "update_note ciph env note_id (PDict kvs) st0 = (Inr r, st1, out)"
    and "\<forall>bs. fernet_encrypt ciph bs (entropy_title env) \<noteq> []"
    and "m \<in> set st1" "id_n m = note_id"
  shows "title_encrypted m = []
        \<longleftrightarrow> (\<exists>v. map_of kvs (ascii ''title'') = Some v \<and> \<not> truthy v)"
proof -
  from assms(1) obtain t c where f: "from_dict ciph env (PDict kvs) = Inr (t, c)"
    and i: "note_id \<in> id_n ` set st0"
    by (rule update_note_Inr)
  from assms(1) have "st1 = map (\<lambda>n. if id_n n = note_id
      then n\<lparr>title_encrypted := t, content_encrypted := c, timestamp := utcnow env\<rparr>
      else n) st0"
    unfolding update_note_present [OF i f] by simp
  with assms(3) have "m \<in> (\<lambda>n. if id_n n = note_id
      then n\<lparr>title_encrypted := t, content_encrypted := c, timestamp := utcnow env\<rparr>
      else n) ` set st0"
    by (simp only: set_map)
  then obtain n where n: "m = (if id_n n = note_id
      then n\<lparr>title_encrypted := t, content_encrypted := c, timestamp := utcnow env\<rparr>
      else n)"
    by blast
  have "title_encrypted m = t"
  proof (cases "id_n n = note_id")
    case True
    with n show ?thesis by simp
  next
    case False
    with n assms(4) show ?thesis by simp
  qed
  then show ?thesis
    using title_Nil_iff [OF f assms(2)] by simp
qed

lemma reachable_titles:
  assumes "reachable ciph st" "n \<in> set st"
  shows "title_encrypted n = []
    \<or> (\<exists>s bs e. s \<noteq> [] \<and> str_encode s = Inr bs
          \<and> title_encrypted n = b2a_base64 (map unat (fernet_encrypt ciph bs e)))"
  using assms
proof (induction arbitrary: n rule: reachable.induct)
  case empty
  then show ?case by simp
next
  case (created st env data r st' out)
  from create_note_rows [OF created(3) created(5)] show ?case
    using created(4) encrypt_field_output by blast
next
  case (updated st env note_id data r st' out)
  from update_note_rows [OF updated(2) updated(4)] show ?case
    using updated(3) encrypt_field_output by blast
next
  case (deleted st note_id r' st')
  from delete_note_rows [OF deleted(2) deleted(4)] show ?case
    using deleted(3) by blast
qed

lemma from_dict_empty_title:
  "from_dict stub_fernet env (PDict [(ascii ''title'', PStr [])]) = Inr ([], [])"
proof -
  have k: "ascii ''content'' \<noteq> ascii ''title''" by (simp add: ascii_def)
  show ?thesis
    unfolding from_dict_PDict encrypt_field_PDict using k by (simp add: encrypt_text_falsy)
qed

lemma stub_tokens_not_Nil: "\<forall>bs. fernet_encrypt stub_fernet bs e \<noteq> []"
  by (simp add: stub_fernet_def stub_encrypt_not_Nil)

section \<open>Update\<close>

text \<open>
  C4. For an id that some row has and a request both of whose fields encrypt (to \<open>t\<close>
  and \<open>c\<close>, the pair \<open>from_dict\<close> computes for a create), \<open>update_note\<close> sets the title,
  the content and the timestamp of the rows with that id to \<open>t\<close>, \<open>c\<close> and the current
  time, leaves every other row as it is, and returns the view of the new values. A
  create with the same request stores the same pair. With the title key absent \<open>t\<close> is
  the ciphertext of \<open>Untitled\<close> (and the view's title is \<open>Untitled\<close>, if the cipher
  decrypts its token), with the content key absent \<open>c\<close> is empty: the values the row
  had do not matter. A request with a field that does not encrypt ends update and
  create alike with the exception and the table as it was.
\<close>

theorem update_note_rewrites:
  assumes "note_id \<in> id_n ` set st"
    and "from_dict ciph env data = Inr (t, c)"
  shows "update_note ciph env note_id data st =
      (Inr \<lparr>id_v = note_id, title = fst (decrypt_text ciph t),
             content = fst (decrypt_text ciph c), timestamp_v = strftime (utcnow env)\<rparr>,
       map (\<lambda>n. if id_n n = note_id
                 then n\<lparr>title_encrypted := t, content_encrypted := c, timestamp := utcnow env\<rparr>
                 else n) st,
       snd (decrypt_text ciph t) @ snd (decrypt_text ciph c))
    \<and> length (fst (snd (update_note ciph env note_id data st))) = length st
    \<and> (\<forall>i<length st. id_n (st ! i) \<noteq> note_id \<longrightarrow>
          fst (snd (update_note ciph env note_id data st)) ! i = st ! i)
    \<and> (\<forall>i<length st. id_n (st ! i) = note_id \<longrightarrow>
          fst (snd (update_note ciph env note_id data st)) ! i =
            \<lparr>id_n = note_id, title_encrypted = t, content_encrypted = c,
             timestamp = utcnow env\<rparr>)
    \<and> create_note ciph env data st0 =
        (Inr \<lparr>id_v = new_id env, title = fst (decrypt_text ciph t),
               content = fst (decrypt_text ciph c), timestamp_v = strftime (utcnow env)\<rparr>,
         st0 @ [\<lparr>id_n = new_id env, title_encrypted = t, content_encrypted = c,
                 timestamp = utcnow env\<rparr>],
         snd (decrypt_text ciph t) @ snd (decrypt_text ciph c))
    \<and> (\<forall>kvs. data = PDict kvs \<and> map_of kvs (ascii ''title'') = None \<longrightarrow>
          encrypt_text ciph (entropy_title env) (PStr (ascii ''Untitled'')) = Inr t)
    \<and> (\<forall>kvs. data = PDict kvs \<and> map_of kvs (ascii ''content'') = None \<longrightarrow> c = [])
    \<and> (\<forall>kvs. data = PDict kvs \<and> map_of kvs (ascii ''title'') = None
          \<and> fernet_round_trip ciph (entropy_title env) (map of_char ''Untitled'')
        \<longrightarrow> decrypt_text ciph t = (ascii ''Untitled'', []))
    \<and> (\<forall>d x. from_dict ciph env d = Inl x \<longrightarrow>
          update_note ciph env note_id d st = (Inl x, st, [])
          \<and> create_note ciph env d st0 = (Inl x, st0, []))"
proof -
  note u = update_note_present [OF assms]
  have a: "\<forall>kvs. data = PDict kvs \<and> map_of kvs (ascii ''title'') = None \<longrightarrow>
          encrypt_text ciph (entropy_title env) (PStr (ascii ''Untitled'')) = Inr t"
    using assms(2) by (auto simp: from_dict_PDict encrypt_field_PDict)
  have b: "\<forall>kvs. data = PDict kvs \<and> map_of kvs (ascii ''content'') = None \<longrightarrow> c = []"
    using assms(2) by (auto simp: from_dict_PDict encrypt_field_PDict encrypt_text_def)
  have r: "\<forall>i<length st. id_n (st ! i) = note_id \<longrightarrow>
      (st ! i)\<lparr>title_encrypted := t, content_encrypted := c, timestamp := utcnow env\<rparr> =
        \<lparr>id_n = note_id, title_encrypted = t, content_encrypted = c, timestamp = utcnow env\<rparr>"
    by auto
  have old: "update_note ciph env note_id data st =
      (Inr \<lparr>id_v = note_id, title = fst (decrypt_text ciph t),
             content = fst (decrypt_text ciph c), timestamp_v = strftime (utcnow env)\<rparr>,
       map (\<lambda>n. if id_n n = note_id
                 then n\<lparr>title_encrypted := t, content_encrypted := c, timestamp := utcnow env\<rparr>
                 else n) st,
       snd (decrypt_text ciph t) @ snd (decrypt_text ciph c))
    \<and> length (fst (snd (update_note ciph env note_id data st))) = length st
    \<and> (\<forall>i<length st. id_n (st ! i) \<noteq> note_id \<longrightarrow>
          fst (snd (update_note ciph env note_id data st)) ! i = st ! i)
    \<and> (\<forall>i<length st. id_n (st ! i) = note_id \<longrightarrow>
          fst (snd (update_note ciph env note_id data st)) ! i =
            \<lparr>id_n = note_id, title_encrypted = t, content_encrypted = c,
             timestamp = utcnow env\<rparr>)
    \<and> create_note ciph env data st0 =
        (Inr \<lparr>id_v = new_id env, title = fst (decrypt_text ciph t),
               content = fst (decrypt_text ciph c), timestamp_v = strftime (utcnow env)\<rparr>,
         st0 @ [\<lparr>id_n = new_id env, title_encrypted = t, content_encrypted = c,
                 timestamp = utcnow env\<rparr>],
         snd (decrypt_text ciph t) @ snd (decrypt_text ciph c))
    \<and> (\<forall>kvs. data = PDict kvs \<and> map_of kvs (ascii ''title'') = None \<longrightarrow>
          encrypt_text ciph (entropy_title env) (PStr (ascii ''Untitled'')) = Inr t)
    \<and> (\<forall>kvs. data = PDict kvs \<and> map_of kvs (ascii ''content'') = None \<longrightarrow> c = [])"
    using a b r by (simp add: u create_note_accepted [OF assms(2)])
  have v: "\<forall>kvs. data = PDict kvs \<and> map_of kvs (ascii ''title'') = None
          \<and> fernet_round_trip ciph (entropy_title env) (map of_char ''Untitled'')
        \<longrightarrow> decrypt_text ciph t = (ascii ''Untitled'', [])"
  proof (intro allI impI, elim conjE)
    fix kvs
    assume k: "data = PDict kvs" "map_of kvs (ascii ''title'') = None"
      and f: "fernet_round_trip ciph (entropy_title env) (map of_char ''Untitled'')"
    from a k have "encrypt_text ciph (entropy_title env) (PStr (ascii ''Untitled'')) = Inr t"
      by blast
    then have "t = b2a_base64 (map unat (fernet_encrypt ciph (map of_char ''Untitled'')
        (entropy_title env)))"
      unfolding encrypt_text_str [OF ascii_Untitled_not_Nil str_encode_Untitled] by simp
    then show "decrypt_text ciph t = (ascii ''Untitled'', [])"
      using decrypt_text_of_encrypt_text [OF ascii_Untitled_not_Nil str_encode_Untitled f]
      by (simp only:)
  qed
  have x: "\<forall>d x. from_dict ciph env d = Inl x \<longrightarrow>
          update_note ciph env note_id d st = (Inl x, st, [])
          \<and> create_note ciph env d st0 = (Inl x, st0, [])"
    using update_note_rejected [OF assms(1)] create_note_rejected by blast
  from old v x show ?thesis by (intro conjI) blast+
qed

text \<open>
  The theorem at a table of two rows, updating row 1 (empty title, content \<open>hi\<close>). With
  the title \<open>hi\<close> and no content, its title becomes \<open>hi\<close>, its content empty, its
  timestamp the new time, and row 2 stays. With an empty body its title becomes
  \<open>Untitled\<close>. With a number as title the request ends with \<open>AttributeError\<close> and the
  table stays.
\<close>

theorem update_note_rewrites_witness:
  "(1::int) \<in> id_n ` set
      [\<lparr>id_n = 1, title_encrypted = [], content_encrypted = sample_ciphertext,
         timestamp = utcnow stub_env\<rparr>,
       \<lparr>id_n = 2, title_encrypted = sample_ciphertext, content_encrypted = [],
         timestamp = utcnow stub_env\<rparr>]
   \<and> from_dict stub_fernet (stub_env\<lparr>utcnow := (2026, 11, 5, 8, 0, 0, 0)\<rparr>)
        (PDict [(ascii ''title'', PStr (ascii ''hi''))]) = Inr (sample_ciphertext, [])
   \<and> update_note stub_fernet (stub_env\<lparr>utcnow := (2026, 11, 5, 8, 0, 0, 0)\<rparr>) 1
        (PDict [(ascii ''title'', PStr (ascii ''hi''))])
        [\<lparr>id_n = 1, title_encrypted = [], content_encrypted = sample_ciphertext,
           timestamp = utcnow stub_env\<rparr>,
         \<lparr>id_n = 2, title_encrypted = sample_ciphertext, content_encrypted = [],
           timestamp = utcnow stub_env\<rparr>]
      = (Inr \<lparr>id_v = 1, title = ascii ''hi'', content = [],
               timestamp_v = strftime (2026, 11, 5, 8, 0, 0, 0)\<rparr>,
         [\<lparr>id_n = 1, title_encrypted = sample_ciphertext, content_encrypted = [],
            timestamp = (2026, 11, 5, 8, 0, 0, 0)\<rparr>,
          \<lparr>id_n = 2, title_encrypted = sample_ciphertext, content_encrypted = [],
            timestamp = utcnow stub_env\<rparr>],
         [])
   \<and> fernet_round_trip stub_fernet
        (entropy_title (stub_env\<lparr>utcnow := (2026, 11, 5, 8, 0, 0, 0)\<rparr>))
        (map of_char ''Untitled'')
   \<and> from_dict stub_fernet (stub_env\<lparr>utcnow := (2026, 11, 5, 8, 0, 0, 0)\<rparr>) (PDict [])
      = Inr (b2a_base64 (map unat (fernet_encrypt stub_fernet (map of_char ''Untitled'')
               stub_entropy)), [])
   \<and> update_note stub_fernet (stub_env\<lparr>utcnow := (2026, 11, 5, 8, 0, 0, 0)\<rparr>) 1 (PDict [])
        [\<lparr>id_n = 1, title_encrypted = [], content_encrypted = sample_ciphertext,
           timestamp = utcnow stub_env\<rparr>,
         \<lparr>id_n = 2, title_encrypted = sample_ciphertext, content_encrypted = [],
           timestamp = utcnow stub_env\<rparr>]
      = (Inr \<lparr>id_v = 1, title = ascii ''Untitled'', content = [],
               timestamp_v = strftime (2026, 11, 5, 8, 0, 0, 0)\<rparr>,
         [\<lparr>id_n = 1,
            title_encrypted = b2a_base64 (map unat (fernet_encrypt stub_fernet
               (map of_char ''Untitled'') stub_entropy)),
            content_encrypted = [], timestamp = (2026, 11, 5, 8, 0, 0, 0)\<rparr>,
          \<lparr>id_n = 2, title_encrypted = sample_ciphertext, content_encrypted = [],
            timestamp = utcnow stub_env\<rparr>],
         [])
   \<and> from_dict stub_fernet (stub_env\<lparr>utcnow := (2026, 11, 5, 8, 0, 0, 0)\<rparr>)
        (PDict [(ascii ''title'', PInt 5)]) = Inl AttributeError
   \<and> update_note stub_fernet (stub_env\<lparr>utcnow := (2026, 11, 5, 8, 0, 0, 0)\<rparr>) 1
        (PDict [(ascii ''title'', PInt 5)])
        [\<lparr>id_n = 1, title_encrypted = [], content_encrypted = sample_ciphertext,
           timestamp = utcnow stub_env\<rparr>,
         \<lparr>id_n = 2, title_encrypted = sample_ciphertext, content_encrypted = [],
           timestamp = utcnow stub_env\<rparr>]
      = (Inl AttributeError,
         [\<lparr>id_n = 1, title_encrypted = [], content_encrypted = sample_ciphertext,
            timestamp = utcnow stub_env\<rparr>,
          \<lparr>id_n = 2, title_encrypted = sample_ciphertext, content_encrypted = [],
            timestamp = utcnow stub_env\<rparr>],
         [])"
proof -
  define env where "env = stub_env\<lparr>utcnow := (2026, 11, 5, 8, 0, 0, 0)\<rparr>"
  define tab where "tab =
      [\<lparr>id_n = 1, title_encrypted = [], content_encrypted = sample_ciphertext,
         timestamp = utcnow stub_env\<rparr>,
       \<lparr>id_n = 2, title_encrypted = sample_ciphertext, content_encrypted = [],
         timestamp = utcnow stub_env\<rparr>]"
  define tU where "tU = b2a_base64 (map unat (fernet_encrypt stub_fernet
      (map of_char ''Untitled'') stub_entropy))"
  have h: "(1::int) \<in> id_n ` set tab" by (simp add: tab_def)
  have e: "entropy_title env = stub_entropy" "utcnow env = (2026, 11, 5, 8, 0, 0, 0)"
    by (simp_all add: env_def stub_env_def)
  have d0: "decrypt_text stub_fernet [] = ([], [])" by (simp add: decrypt_text_def)
  have f1: "from_dict stub_fernet env (PDict [(ascii ''title'', PStr (ascii ''hi''))])
      = Inr (sample_ciphertext, [])"
    by (rule from_dict_hi [OF e(1)])
  have c1: "update_note stub_fernet env 1 (PDict [(ascii ''title'', PStr (ascii ''hi''))]) tab
      = (Inr \<lparr>id_v = 1, title = ascii ''hi'', content = [],
               timestamp_v = strftime (2026, 11, 5, 8, 0, 0, 0)\<rparr>,
         [\<lparr>id_n = 1, title_encrypted = sample_ciphertext, content_encrypted = [],
            timestamp = (2026, 11, 5, 8, 0, 0, 0)\<rparr>,
          \<lparr>id_n = 2, title_encrypted = sample_ciphertext, content_encrypted = [],
            timestamp = utcnow stub_env\<rparr>],
         [])"
    using update_note_rewrites [OF h f1, THEN conjunct1]
    by (simp add: decrypt_text_sample d0 e tab_def)
  have rt: "fernet_round_trip stub_fernet (entropy_title env) (map of_char ''Untitled'')"
    by (rule stub_fernet_round_trip) (simp add: e stub_entropy_def)
  have "encrypt_text stub_fernet (entropy_title env) (PStr (ascii ''Untitled'')) = Inr tU"
    unfolding tU_def e(1)
    by (rule encrypt_text_str [OF ascii_Untitled_not_Nil str_encode_Untitled])
  then have f2: "from_dict stub_fernet env (PDict []) = Inr (tU, [])"
    by (simp add: from_dict_PDict encrypt_field_PDict encrypt_text_falsy)
  note t2 = update_note_rewrites [OF h f2]
  have m: "PDict [] = PDict [] \<and> map_of ([] :: (pystr \<times> pyval) list) (ascii ''title'') = None
      \<and> fernet_round_trip stub_fernet (entropy_title env) (map of_char ''Untitled'')"
    using rt by simp
  have dU: "decrypt_text stub_fernet tU = (ascii ''Untitled'', [])"
    using t2 [THEN conjunct2, THEN conjunct2, THEN conjunct2, THEN conjunct2, THEN conjunct2,
        THEN conjunct2, THEN conjunct2, THEN conjunct1, rule_format, OF m] .
  have c2: "update_note stub_fernet env 1 (PDict []) tab
      = (Inr \<lparr>id_v = 1, title = ascii ''Untitled'', content = [],
               timestamp_v = strftime (2026, 11, 5, 8, 0, 0, 0)\<rparr>,
         [\<lparr>id_n = 1, title_encrypted = tU, content_encrypted = [],
            timestamp = (2026, 11, 5, 8, 0, 0, 0)\<rparr>,
          \<lparr>id_n = 2, title_encrypted = sample_ciphertext, content_encrypted = [],
            timestamp = utcnow stub_env\<rparr>],
         [])"
    using t2 [THEN conjunct1] by (simp add: dU d0 e tab_def)
  have f3: "from_dict stub_fernet env (PDict [(ascii ''title'', PInt 5)]) = Inl AttributeError"
    by (simp add: from_dict_def encrypt_field_def encrypt_text_def)
  have c3: "update_note stub_fernet env 1 (PDict [(ascii ''title'', PInt 5)]) tab
      = (Inl AttributeError, tab, [])"
    using t2 [THEN conjunct2, THEN conjunct2, THEN conjunct2, THEN conjunct2, THEN conjunct2,
        THEN conjunct2, THEN conjunct2, THEN conjunct2, rule_format, OF f3, THEN conjunct1] .
  show ?thesis
    using h f1 c1 rt f2 c2 f3 c3
    unfolding env_def tab_def tU_def by (intro conjI)
qed

section \<open>Unknown ids\<close>



section \<open>Defaults of create\<close>

text \<open>
  C6. \<open>create_note\<close> with a JSON object as body. If the title key is absent (the content
  encrypts to \<open>c\<close>, and the cipher decrypts its token of \<open>Untitled\<close>), the new row
  stores the ciphertext of \<open>Untitled\<close> and the view's title is \<open>Untitled\<close>. If the content
  key is absent (the title encrypts to \<open>t'\<close>), the new row stores the empty string as
  content and the view's content is empty. In both the view carries the id the
  database assigned and the formatted time of the insert, and the row is appended.
\<close>

theorem create_note_defaults:
  "(map_of kvs (ascii ''title'') = None
      \<and> encrypt_field ciph (entropy_content env) (PDict kvs) (ascii ''content'') (PStr [])
          = Inr c
      \<and> fernet_round_trip ciph (entropy_title env) (map of_char ''Untitled'')
    \<longrightarrow> (\<exists>t. encrypt_text ciph (entropy_title env) (PStr (ascii ''Untitled'')) = Inr t
          \<and> create_note ciph env (PDict kvs) st =
              (Inr \<lparr>id_v = new_id env, title = ascii ''Untitled'',
                     content = fst (decrypt_text ciph c),
                     timestamp_v = strftime (utcnow env)\<rparr>,
               st @ [\<lparr>id_n = new_id env, title_encrypted = t, content_encrypted = c,
                       timestamp = utcnow env\<rparr>],
               snd (decrypt_text ciph c))))
   \<and> (map_of kvs (ascii ''content'') = None
      \<and> encrypt_field ciph (entropy_title env) (PDict kvs) (ascii ''title'')
            (PStr (ascii ''Untitled'')) = Inr t'
    \<longrightarrow> create_note ciph env (PDict kvs) st =
          (Inr \<lparr>id_v = new_id env, title = fst (decrypt_text ciph t'), content = [],
                 timestamp_v = strftime (utcnow env)\<rparr>,
           st @ [\<lparr>id_n = new_id env, title_encrypted = t', content_encrypted = [],
                   timestamp = utcnow env\<rparr>],
           snd (decrypt_text ciph t')))"
proof (intro conjI impI)
  assume a: "map_of kvs (ascii ''title'') = None
      \<and> encrypt_field ciph (entropy_content env) (PDict kvs) (ascii ''content'') (PStr [])
          = Inr c
      \<and> fernet_round_trip ciph (entropy_title env) (map of_char ''Untitled'')"
  define t where "t = b2a_base64 (map unat (fernet_encrypt ciph (map of_char ''Untitled'')
      (entropy_title env)))"
  have e: "encrypt_text ciph (entropy_title env) (PStr (ascii ''Untitled'')) = Inr t"
    unfolding t_def by (rule encrypt_text_str [OF ascii_Untitled_not_Nil str_encode_Untitled])
  have d: "decrypt_text ciph t = (ascii ''Untitled'', [])"
    unfolding t_def using a
    by (intro decrypt_text_of_encrypt_text [OF ascii_Untitled_not_Nil str_encode_Untitled])
      simp
  have f: "from_dict ciph env (PDict kvs) = Inr (t, c)"
    using a e by (simp add: from_dict_PDict encrypt_field_PDict)
  show "\<exists>t. encrypt_text ciph (entropy_title env) (PStr (ascii ''Untitled'')) = Inr t
          \<and> create_note ciph env (PDict kvs) st =
              (Inr \<lparr>id_v = new_id env, title = ascii ''Untitled'',
                     content = fst (decrypt_text ciph c),
                     timestamp_v = strftime (utcnow env)\<rparr>,
               st @ [\<lparr>id_n = new_id env, title_encrypted = t, content_encrypted = c,
                       timestamp = utcnow env\<rparr>],
               snd (decrypt_text ciph c))"
    using e by (simp add: create_note_accepted [OF f] d)
next
  assume a: "map_of kvs (ascii ''content'') = None
      \<and> encrypt_field ciph (entropy_title env) (PDict kvs) (ascii ''title'')
            (PStr (ascii ''Untitled'')) = Inr t'"
  have f: "from_dict ciph env (PDict kvs) = Inr (t', [])"
    using a by (simp add: from_dict_PDict encrypt_field_PDict encrypt_text_def)
  show "create_note ciph env (PDict kvs) st =
          (Inr \<lparr>id_v = new_id env, title = fst (decrypt_text ciph t'), content = [],
                 timestamp_v = strftime (utcnow env)\<rparr>,
           st @ [\<lparr>id_n = new_id env, title_encrypted = t', content_encrypted = [],
                   timestamp = utcnow env\<rparr>],
           snd (decrypt_text ciph t'))"
    by (simp add: create_note_accepted [OF f] decrypt_text_def)
qed

text \<open>The theorem at the empty JSON object and the empty table, under the stand-in.\<close>

theorem create_note_defaults_witness:
  "map_of ([] :: (pystr \<times> pyval) list) (ascii ''title'') = None
   \<and> map_of ([] :: (pystr \<times> pyval) list) (ascii ''content'') = None
   \<and> encrypt_field stub_fernet (entropy_content stub_env) (PDict []) (ascii ''content'')
         (PStr []) = Inr []
   \<and> fernet_round_trip stub_fernet (entropy_title stub_env) (map of_char ''Untitled'')
   \<and> (\<exists>t. encrypt_field stub_fernet (entropy_title stub_env) (PDict []) (ascii ''title'')
              (PStr (ascii ''Untitled'')) = Inr t
          \<and> encrypt_text stub_fernet (entropy_title stub_env) (PStr (ascii ''Untitled''))
              = Inr t
          \<and> decrypt_text stub_fernet t = (ascii ''Untitled'', [])
          \<and> create_note stub_fernet stub_env (PDict []) [] =
              (Inr \<lparr>id_v = 1, title = ascii ''Untitled'', content = [],
                     timestamp_v = strftime (utcnow stub_env)\<rparr>,
               [\<lparr>id_n = 1, title_encrypted = t, content_encrypted = [],
                  timestamp = utcnow stub_env\<rparr>],
               []))"
proof -
  have h1: "map_of ([] :: (pystr \<times> pyval) list) (ascii ''title'') = None"
    and h2: "map_of ([] :: (pystr \<times> pyval) list) (ascii ''content'') = None"
    by simp_all
  have h3: "encrypt_field stub_fernet (entropy_content stub_env) (PDict []) (ascii ''content'')
         (PStr []) = Inr []"
    by (simp add: encrypt_field_PDict encrypt_text_falsy)
  have h4: "fernet_round_trip stub_fernet (entropy_title stub_env) (map of_char ''Untitled'')"
    by (rule stub_fernet_round_trip) (simp add: stub_env_def stub_entropy_def)
  have d0: "decrypt_text stub_fernet [] = ([], [])" by (simp add: decrypt_text_def)
  have n: "new_id stub_env = 1" by (simp add: stub_env_def)
  from create_note_defaults [of "[]" stub_fernet stub_env "[]" "[]", THEN conjunct1] h1 h3 h4
  obtain t where t: "encrypt_text stub_fernet (entropy_title stub_env)
        (PStr (ascii ''Untitled'')) = Inr t"
      "create_note stub_fernet stub_env (PDict []) [] =
              (Inr \<lparr>id_v = 1, title = ascii ''Untitled'', content = [],
                     timestamp_v = strftime (utcnow stub_env)\<rparr>,
               [\<lparr>id_n = 1, title_encrypted = t, content_encrypted = [],
                  timestamp = utcnow stub_env\<rparr>],
               [])"
    by (auto simp: d0 n)
  have f: "encrypt_field stub_fernet (entropy_title stub_env) (PDict []) (ascii ''title'')
              (PStr (ascii ''Untitled'')) = Inr t"
    using t(1) by (simp add: encrypt_field_PDict)
  have "fst (create_note stub_fernet stub_env (PDict []) []) =
      Inr \<lparr>id_v = 1, title = fst (decrypt_text stub_fernet t), content = [],
                 timestamp_v = strftime (utcnow stub_env)\<rparr>"
    using create_note_defaults [of "[]" stub_fernet stub_env c "[]" t, THEN conjunct2] h2 f
    by (simp add: n)
  then have "fst (decrypt_text stub_fernet t) = ascii ''Untitled''"
    by (simp add: t(2))
  moreover have "snd (decrypt_text stub_fernet t) = []"
    using create_note_defaults [of "[]" stub_fernet stub_env c "[]" t, THEN conjunct2] h2 f
    by (simp add: t(2))
  ultimately have d: "decrypt_text stub_fernet t = (ascii ''Untitled'', [])"
    by (simp add: prod_eq_iff)
  show ?thesis
    using h1 h2 h3 h4 f t d by blast
qed

section \<open>Order of the listing\<close>

text \<open>
  C7, as amended. Whatever rows the query returns for a table, they are the rows of
  the table, each once, with timestamps descending, and \<open>get_notes\<close> returns their
  views in that order, each with the id, the time and the decrypted fields of its
  row. If the timestamps strictly increase in insertion order, the rows come back as
  the table reversed and the listing has their ids in that order (A, B, C gives C, B,
  A). Nothing is said of the order of rows with equal timestamps.
\<close>

theorem get_notes_newest_first:
  assumes "order_by_timestamp_desc st notes"
  shows "sorted_wrt (\<lambda>a b. timestamp a \<ge> timestamp b) notes \<and> mset notes = mset st
    \<and> map id_v (fst (get_notes ciph notes)) = map id_n notes
    \<and> map timestamp_v (fst (get_notes ciph notes)) = map (\<lambda>n. strftime (timestamp n)) notes
    \<and> (sorted_wrt (\<lambda>a b. timestamp a < timestamp b) st \<longrightarrow> notes = rev st)
    \<and> map title (fst (get_notes ciph notes))
        = map (\<lambda>n. fst (decrypt_text ciph (title_encrypted n))) notes
    \<and> map content (fst (get_notes ciph notes))
        = map (\<lambda>n. fst (decrypt_text ciph (content_encrypted n))) notes
    \<and> (sorted_wrt (\<lambda>a b. timestamp a < timestamp b) st \<longrightarrow>
          map id_v (fst (get_notes ciph notes)) = rev (map id_n st))"
  using assms order_by_strict [OF assms]
  by (simp add: order_by_timestamp_desc_def get_notes_def to_dict_def comp_def rev_map)

text \<open>The theorem at three rows inserted with increasing timestamps.\<close>

theorem get_notes_newest_first_witness:
  "order_by_timestamp_desc
     [\<lparr>id_n = 1, title_encrypted = [], content_encrypted = [],
        timestamp = (2026, 11, 4, 9, 59, 0, 0)\<rparr>,
      \<lparr>id_n = 2, title_encrypted = [], content_encrypted = [],
        timestamp = (2026, 11, 4, 9, 59, 0, 500)\<rparr>,
      \<lparr>id_n = 3, title_encrypted = [], content_encrypted = [],
        timestamp = (2026, 11, 4, 10, 0, 0, 0)\<rparr>]
     [\<lparr>id_n = 3, title_encrypted = [], content_encrypted = [],
        timestamp = (2026, 11, 4, 10, 0, 0, 0)\<rparr>,
      \<lparr>id_n = 2, title_encrypted = [], content_encrypted = [],
        timestamp = (2026, 11, 4, 9, 59, 0, 500)\<rparr>,
      \<lparr>id_n = 1, title_encrypted = [], content_encrypted = [],
        timestamp = (2026, 11, 4, 9, 59, 0, 0)\<rparr>]
   \<and> sorted_wrt (\<lambda>a b. timestamp a < timestamp b)
     [\<lparr>id_n = 1, title_encrypted = [], content_encrypted = [],
        timestamp = (2026, 11, 4, 9, 59, 0, 0)\<rparr>,
      \<lparr>id_n = 2, title_encrypted = [], content_encrypted = [],
        timestamp = (2026, 11, 4, 9, 59, 0, 500)\<rparr>,
      \<lparr>id_n = 3, title_encrypted = [], content_encrypted = [],
        timestamp = (2026, 11, 4, 10, 0, 0, 0)\<rparr>]
   \<and> map id_v (fst (get_notes stub_fernet
     [\<lparr>id_n = 3, title_encrypted = [], content_encrypted = [],
        timestamp = (2026, 11, 4, 10, 0, 0, 0)\<rparr>,
      \<lparr>id_n = 2, title_encrypted = [], content_encrypted = [],
        timestamp = (2026, 11, 4, 9, 59, 0, 500)\<rparr>,
      \<lparr>id_n = 1, title_encrypted = [], content_encrypted = [],
        timestamp = (2026, 11, 4, 9, 59, 0, 0)\<rparr>])) = [3, 2, 1]"
proof -
  have h: "order_by_timestamp_desc
     [\<lparr>id_n = 1, title_encrypted = [], content_encrypted = [],
        timestamp = (2026, 11, 4, 9, 59, 0, 0)\<rparr>,
      \<lparr>id_n = 2, title_encrypted = [], content_encrypted = [],
        timestamp = (2026, 11, 4, 9, 59, 0, 500)\<rparr>,
      \<lparr>id_n = 3, title_encrypted = [], content_encrypted = [],
        timestamp = (2026, 11, 4, 10, 0, 0, 0)\<rparr>]
     [\<lparr>id_n = 3, title_encrypted = [], content_encrypted = [],
        timestamp = (2026, 11, 4, 10, 0, 0, 0)\<rparr>,
      \<lparr>id_n = 2, title_encrypted = [], content_encrypted = [],
        timestamp = (2026, 11, 4, 9, 59, 0, 500)\<rparr>,
      \<lparr>id_n = 1, title_encrypted = [], content_encrypted = [],
        timestamp = (2026, 11, 4, 9, 59, 0, 0)\<rparr>]"
    using order_by_rev [of "[\<lparr>id_n = 1, title_encrypted = [], content_encrypted = [],
        timestamp = (2026, 11, 4, 9, 59, 0, 0)\<rparr>,
      \<lparr>id_n = 2, title_encrypted = [], content_encrypted = [],
        timestamp = (2026, 11, 4, 9, 59, 0, 500)\<rparr>,
      \<lparr>id_n = 3, title_encrypted = [], content_encrypted = [],
        timestamp = (2026, 11, 4, 10, 0, 0, 0)\<rparr>]"]
    by simp
  have s: "sorted_wrt (\<lambda>a b. timestamp a < timestamp b)
     [\<lparr>id_n = 1, title_encrypted = [], content_encrypted = [],
        timestamp = (2026, 11, 4, 9, 59, 0, 0)\<rparr>,
      \<lparr>id_n = 2, title_encrypted = [], content_encrypted = [],
        timestamp = (2026, 11, 4, 9, 59, 0, 500)\<rparr>,
      \<lparr>id_n = 3, title_encrypted = [], content_encrypted = [],
        timestamp = (2026, 11, 4, 10, 0, 0, 0)\<rparr>]"
    by simp
  note t = get_notes_newest_first [OF h, of stub_fernet]
  from t [THEN conjunct2, THEN conjunct2, THEN conjunct1]
  have i: "map id_v (fst (get_notes stub_fernet
     [\<lparr>id_n = 3, title_encrypted = [], content_encrypted = [],
        timestamp = (2026, 11, 4, 10, 0, 0, 0)\<rparr>,
      \<lparr>id_n = 2, title_encrypted = [], content_encrypted = [],
        timestamp = (2026, 11, 4, 9, 59, 0, 500)\<rparr>,
      \<lparr>id_n = 1, title_encrypted = [], content_encrypted = [],
        timestamp = (2026, 11, 4, 9, 59, 0, 0)\<rparr>])) = [3, 2, 1]"
    by simp
  show ?thesis
    by (intro conjI h s i)
qed

text \<open>
  C7 as stated fails: for rows 1 and 2 inserted in this order with equal timestamps,
  the rows in the order 2, 1 are a result of the query, and \<open>get_notes\<close> then lists
  row 2 before row 1.
\<close>

theorem equal_timestamps_counterexample:
  "order_by_timestamp_desc
     [\<lparr>id_n = 1, title_encrypted = [], content_encrypted = [],
        timestamp = (2026, 11, 4, 9, 59, 0, 0)\<rparr>,
      \<lparr>id_n = 2, title_encrypted = [], content_encrypted = [],
        timestamp = (2026, 11, 4, 9, 59, 0, 0)\<rparr>]
     [\<lparr>id_n = 2, title_encrypted = [], content_encrypted = [],
        timestamp = (2026, 11, 4, 9, 59, 0, 0)\<rparr>,
      \<lparr>id_n = 1, title_encrypted = [], content_encrypted = [],
        timestamp = (2026, 11, 4, 9, 59, 0, 0)\<rparr>]
   \<and> map id_v (fst (get_notes stub_fernet
     [\<lparr>id_n = 2, title_encrypted = [], content_encrypted = [],
        timestamp = (2026, 11, 4, 9, 59, 0, 0)\<rparr>,
      \<lparr>id_n = 1, title_encrypted = [], content_encrypted = [],
        timestamp = (2026, 11, 4, 9, 59, 0, 0)\<rparr>])) = [2, 1]"
proof -
  have "order_by_timestamp_desc
     [\<lparr>id_n = 1, title_encrypted = [], content_encrypted = [],
        timestamp = (2026, 11, 4, 9, 59, 0, 0)\<rparr>,
      \<lparr>id_n = 2, title_encrypted = [], content_encrypted = [],
        timestamp = (2026, 11, 4, 9, 59, 0, 0)\<rparr>]
     [\<lparr>id_n = 2, title_encrypted = [], content_encrypted = [],
        timestamp = (2026, 11, 4, 9, 59, 0, 0)\<rparr>,
      \<lparr>id_n = 1, title_encrypted = [], content_encrypted = [],
        timestamp = (2026, 11, 4, 9, 59, 0, 0)\<rparr>]"
    using order_by_rev [of "[\<lparr>id_n = 1, title_encrypted = [], content_encrypted = [],
        timestamp = (2026, 11, 4, 9, 59, 0, 0)\<rparr>,
      \<lparr>id_n = 2, title_encrypted = [], content_encrypted = [],
        timestamp = (2026, 11, 4, 9, 59, 0, 0)\<rparr>]"]
    by simp
  then show ?thesis
    by (simp add: get_notes_def to_dict_def)
qed

section \<open>Stored titles\<close>

text \<open>
  C8, as amended. In every table the routes can produce from the empty one, the
  \<open>title_encrypted\<close> of every row is either the empty string or the base64 text of a
  token the cipher issued for the UTF-8 bytes of a non-empty string. Under a cipher
  whose tokens are never empty, a create that succeeds on such a table appends one
  row, and an update that succeeds rewrites the rows of its id, with a
  \<open>title_encrypted\<close> that is empty exactly when the body holds the title key with a
  falsy value (\<open>null\<close>, the empty string, \<open>0\<close>, \<open>false\<close>, an empty list or object).
\<close>

theorem stored_title_invariant:
  assumes "reachable ciph st"
  shows "(\<forall>n\<in>set st. title_encrypted n = []
      \<or> (\<exists>s bs e. s \<noteq> [] \<and> str_encode s = Inr bs
            \<and> title_encrypted n = b2a_base64 (map unat (fernet_encrypt ciph bs e))))
    \<and> (\<forall>env kvs r st1 out.
          create_note ciph env (PDict kvs) st = (Inr r, st1, out)
          \<and> (\<forall>bs. fernet_encrypt ciph bs (entropy_title env) \<noteq> [])
        \<longrightarrow> (\<exists>m. st1 = st @ [m] \<and> id_n m = new_id env
              \<and> (title_encrypted m = []
                  \<longleftrightarrow> (\<exists>v. map_of kvs (ascii ''title'') = Some v \<and> \<not> truthy v))))
    \<and> (\<forall>env note_id kvs r st1 out.
          update_note ciph env note_id (PDict kvs) st = (Inr r, st1, out)
          \<and> (\<forall>bs. fernet_encrypt ciph bs (entropy_title env) \<noteq> [])
        \<longrightarrow> (\<forall>m\<in>set st1. id_n m = note_id \<longrightarrow>
              (title_encrypted m = []
                \<longleftrightarrow> (\<exists>v. map_of kvs (ascii ''title'') = Some v \<and> \<not> truthy v))))"
proof (intro conjI ballI allI impI)
  fix n assume "n \<in> set st"
  with assms show "title_encrypted n = []
      \<or> (\<exists>s bs e. s \<noteq> [] \<and> str_encode s = Inr bs
            \<and> title_encrypted n = b2a_base64 (map unat (fernet_encrypt ciph bs e)))"
    by (rule reachable_titles)
next
  fix env kvs r st1 out
  assume "create_note ciph env (PDict kvs) st = (Inr r, st1, out)
          \<and> (\<forall>bs. fernet_encrypt ciph bs (entropy_title env) \<noteq> [])"
  then show "\<exists>m. st1 = st @ [m] \<and> id_n m = new_id env
              \<and> (title_encrypted m = []
                  \<longleftrightarrow> (\<exists>v. map_of kvs (ascii ''title'') = Some v \<and> \<not> truthy v))"
    using create_note_title_Nil_iff [of ciph env kvs st r st1 out] by blast
next
  fix env note_id kvs r st1 out m
  assume "update_note ciph env note_id (PDict kvs) st = (Inr r, st1, out)
          \<and> (\<forall>bs. fernet_encrypt ciph bs (entropy_title env) \<noteq> [])"
    and "m \<in> set st1" "id_n m = note_id"
  then show "title_encrypted m = []
                \<longleftrightarrow> (\<exists>v. map_of kvs (ascii ''title'') = Some v \<and> \<not> truthy v)"
    using update_note_title_Nil_iff [of ciph env note_id kvs st r st1 out m] by blast
qed

text \<open>
  The theorem at the table a create with the title \<open>hi\<close> leaves: a create with the
  empty string as title appends a row with an empty \<open>title_encrypted\<close>, an update
  with the title \<open>hi\<close> leaves a non-empty one.
\<close>

theorem stored_title_invariant_witness:
  "reachable stub_fernet
     [\<lparr>id_n = 1, title_encrypted = sample_ciphertext, content_encrypted = [],
        timestamp = utcnow stub_env\<rparr>]
   \<and> (sample_ciphertext = []
        \<or> (\<exists>s bs e. s \<noteq> [] \<and> str_encode s = Inr bs
            \<and> sample_ciphertext = b2a_base64 (map unat (fernet_encrypt stub_fernet bs e))))
   \<and> (\<forall>bs. fernet_encrypt stub_fernet bs (entropy_title (stub_env\<lparr>new_id := 2\<rparr>)) \<noteq> [])
   \<and> create_note stub_fernet (stub_env\<lparr>new_id := 2\<rparr>) (PDict [(ascii ''title'', PStr [])])
        [\<lparr>id_n = 1, title_encrypted = sample_ciphertext, content_encrypted = [],
           timestamp = utcnow stub_env\<rparr>]
      = (Inr \<lparr>id_v = 2, title = [], content = [],
               timestamp_v = strftime (utcnow stub_env)\<rparr>,
         [\<lparr>id_n = 1, title_encrypted = sample_ciphertext, content_encrypted = [],
            timestamp = utcnow stub_env\<rparr>]
         @ [\<lparr>id_n = 2, title_encrypted = [], content_encrypted = [],
              timestamp = utcnow stub_env\<rparr>],
         [])
   \<and> (\<exists>v. map_of [(ascii ''title'', PStr [])] (ascii ''title'') = Some v \<and> \<not> truthy v)
   \<and> (\<forall>bs. fernet_encrypt stub_fernet bs (entropy_title stub_env) \<noteq> [])
   \<and> update_note stub_fernet stub_env 1 (PDict [(ascii ''title'', PStr (ascii ''hi''))])
        [\<lparr>id_n = 1, title_encrypted = sample_ciphertext, content_encrypted = [],
           timestamp = utcnow stub_env\<rparr>]
      = (Inr \<lparr>id_v = 1, title = ascii ''hi'', content = [],
               timestamp_v = strftime (utcnow stub_env)\<rparr>,
         [\<lparr>id_n = 1, title_encrypted = sample_ciphertext, content_encrypted = [],
            timestamp = utcnow stub_env\<rparr>],
         [])
   \<and> sample_ciphertext \<noteq> []"
proof -
  define row where "row = \<lparr>id_n = 1, title_encrypted = sample_ciphertext,
      content_encrypted = [], timestamp = utcnow stub_env\<rparr>"
  have r: "reachable stub_fernet [row]"
    unfolding row_def by (rule reachable.created [OF reachable.empty _ create_note_hi]) simp
  note t = stored_title_invariant [OF r]
  have d0: "decrypt_text stub_fernet [] = ([], [])" by (simp add: decrypt_text_def)
  have inv: "sample_ciphertext = []
        \<or> (\<exists>s bs e. s \<noteq> [] \<and> str_encode s = Inr bs
            \<and> sample_ciphertext = b2a_base64 (map unat (fernet_encrypt stub_fernet bs e)))"
    using t [THEN conjunct1] by (simp add: row_def)
  have c: "create_note stub_fernet (stub_env\<lparr>new_id := 2\<rparr>)
        (PDict [(ascii ''title'', PStr [])]) [row]
      = (Inr \<lparr>id_v = 2, title = [], content = [],
               timestamp_v = strftime (utcnow stub_env)\<rparr>,
         [row] @ [\<lparr>id_n = 2, title_encrypted = [], content_encrypted = [],
              timestamp = utcnow stub_env\<rparr>],
         [])"
    unfolding create_note_accepted [OF from_dict_empty_title] by (simp add: d0)
  have v: "\<exists>v. map_of [(ascii ''title'', PStr [])] (ascii ''title'') = Some v \<and> \<not> truthy v"
    by simp
  have i: "(1::int) \<in> id_n ` set [row]" by (simp add: row_def)
  have u: "update_note stub_fernet stub_env 1 (PDict [(ascii ''title'', PStr (ascii ''hi''))])
        [row]
      = (Inr \<lparr>id_v = 1, title = ascii ''hi'', content = [],
               timestamp_v = strftime (utcnow stub_env)\<rparr>,
         [row], [])"
    unfolding update_note_present [OF i from_dict_hi [OF entropy_title_stub_env(2)]]
    by (simp add: d0 decrypt_text_sample row_def)
  have m: "row \<in> set [row]" "id_n row = 1" by (simp_all add: row_def)
  have "title_encrypted row = [] \<longleftrightarrow>
      (\<exists>v. map_of [(ascii ''title'', PStr (ascii ''hi''))] (ascii ''title'') = Some v
         \<and> \<not> truthy v)"
    using t [THEN conjunct2, THEN conjunct2, rule_format,
        OF conjI [OF u stub_tokens_not_Nil] m]
    by blast
  then have ne: "sample_ciphertext \<noteq> []"
    using ascii_hi_not_Nil by (simp add: row_def)
  show ?thesis
    using r inv c v u ne stub_tokens_not_Nil [of "entropy_title (stub_env\<lparr>new_id := 2\<rparr>)"]
      stub_tokens_not_Nil [of "entropy_title stub_env"]
    unfolding row_def by (intro conjI)
qed

text \<open>
  C8 as stated fails: a create whose body has the empty string as title succeeds and
  leaves a row with an empty \<open>title_encrypted\<close>.
\<close>

theorem empty_title_counterexample:
  "create_note stub_fernet stub_env (PDict [(ascii ''title'', PStr [])]) [] =
     (Inr \<lparr>id_v = 1, title = [], content = [], timestamp_v = strftime (utcnow stub_env)\<rparr>,
      [\<lparr>id_n = 1, title_encrypted = [], content_encrypted = [],
         timestamp = utcnow stub_env\<rparr>],
      [])
   \<and> reachable stub_fernet
     [\<lparr>id_n = 1, title_encrypted = [], content_encrypted = [], timestamp = utcnow stub_env\<rparr>]
   \<and> title_encrypted
     (hd [\<lparr>id_n = 1, title_encrypted = [], content_encrypted = [],
            timestamp = utcnow stub_env\<rparr>]) = []"
proof -
  have "reachable stub_fernet
     [\<lparr>id_n = 1, title_encrypted = [], content_encrypted = [], timestamp = utcnow stub_env\<rparr>]"
    by (rule reachable.created [OF reachable.empty _ create_note_empty_title]) simp
  then show ?thesis by (simp add: create_note_empty_title)
qed

section \<open>Fields present but empty\<close>

text \<open>
  C10. If the body holds the title key with \<open>null\<close> or the empty string (and the
  content encrypts to \<open>c\<close>), create stores the empty string as \<open>title_encrypted\<close> and
  returns an empty title, and update of an existing id does the same to its rows; and
  likewise with title and content exchanged. \<open>data.get\<close> gives the default only when
  the key is absent, and the value of the key otherwise.
\<close>

theorem falsy_field_stored_empty:
  "(map_of kvs (ascii ''title'') = Some tv \<and> (tv = PNone \<or> tv = PStr [])
      \<and> encrypt_field ciph (entropy_content env) (PDict kvs) (ascii ''content'') (PStr [])
          = Inr c
    \<longrightarrow> create_note ciph env (PDict kvs) st =
          (Inr \<lparr>id_v = new_id env, title = [], content = fst (decrypt_text ciph c),
                 timestamp_v = strftime (utcnow env)\<rparr>,
           st @ [\<lparr>id_n = new_id env, title_encrypted = [], content_encrypted = c,
                   timestamp = utcnow env\<rparr>],
           snd (decrypt_text ciph c))
        \<and> (note_id \<in> id_n ` set st \<longrightarrow>
            update_note ciph env note_id (PDict kvs) st =
              (Inr \<lparr>id_v = note_id, title = [], content = fst (decrypt_text ciph c),
                     timestamp_v = strftime (utcnow env)\<rparr>,
               map (\<lambda>n. if id_n n = note_id
                         then n\<lparr>title_encrypted := [], content_encrypted := c,
                                timestamp := utcnow env\<rparr>
                         else n) st,
               snd (decrypt_text ciph c))))
   \<and> (map_of kvs (ascii ''content'') = Some cv \<and> (cv = PNone \<or> cv = PStr [])
      \<and> encrypt_field ciph (entropy_title env) (PDict kvs) (ascii ''title'')
            (PStr (ascii ''Untitled'')) = Inr t
    \<longrightarrow> create_note ciph env (PDict kvs) st =
          (Inr \<lparr>id_v = new_id env, title = fst (decrypt_text ciph t), content = [],
                 timestamp_v = strftime (utcnow env)\<rparr>,
           st @ [\<lparr>id_n = new_id env, title_encrypted = t, content_encrypted = [],
                   timestamp = utcnow env\<rparr>],
           snd (decrypt_text ciph t))
        \<and> (note_id \<in> id_n ` set st \<longrightarrow>
            update_note ciph env note_id (PDict kvs) st =
              (Inr \<lparr>id_v = note_id, title = fst (decrypt_text ciph t), content = [],
                     timestamp_v = strftime (utcnow env)\<rparr>,
               map (\<lambda>n. if id_n n = note_id
                         then n\<lparr>title_encrypted := t, content_encrypted := [],
                                timestamp := utcnow env\<rparr>
                         else n) st,
               snd (decrypt_text ciph t))))
   \<and> (map_of kvs k = None \<longrightarrow> py_get (PDict kvs) k d = Inr d)
   \<and> (map_of kvs k = Some v \<longrightarrow> py_get (PDict kvs) k d = Inr v)"
proof (intro conjI impI)
  assume a: "map_of kvs (ascii ''title'') = Some tv \<and> (tv = PNone \<or> tv = PStr [])
      \<and> encrypt_field ciph (entropy_content env) (PDict kvs) (ascii ''content'') (PStr [])
          = Inr c"
  then have "\<not> truthy tv" by auto
  then have f: "from_dict ciph env (PDict kvs) = Inr ([], c)"
    using a by (simp add: from_dict_PDict encrypt_field_PDict encrypt_text_falsy)
  have d0: "decrypt_text ciph [] = ([], [])" by (simp add: decrypt_text_def)
  show "create_note ciph env (PDict kvs) st =
          (Inr \<lparr>id_v = new_id env, title = [], content = fst (decrypt_text ciph c),
                 timestamp_v = strftime (utcnow env)\<rparr>,
           st @ [\<lparr>id_n = new_id env, title_encrypted = [], content_encrypted = c,
                   timestamp = utcnow env\<rparr>],
           snd (decrypt_text ciph c))"
    by (simp add: create_note_accepted [OF f] d0)
  assume i: "note_id \<in> id_n ` set st"
  show "update_note ciph env note_id (PDict kvs) st =
              (Inr \<lparr>id_v = note_id, title = [], content = fst (decrypt_text ciph c),
                     timestamp_v = strftime (utcnow env)\<rparr>,
               map (\<lambda>n. if id_n n = note_id
                         then n\<lparr>title_encrypted := [], content_encrypted := c,
                                timestamp := utcnow env\<rparr>
                         else n) st,
               snd (decrypt_text ciph c))"
    using update_note_present [OF i f] by (simp add: d0)
next
  assume a: "map_of kvs (ascii ''content'') = Some cv \<and> (cv = PNone \<or> cv = PStr [])
      \<and> encrypt_field ciph (entropy_title env) (PDict kvs) (ascii ''title'')
            (PStr (ascii ''Untitled'')) = Inr t"
  then have "\<not> truthy cv" by auto
  then have f: "from_dict ciph env (PDict kvs) = Inr (t, [])"
    using a by (simp add: from_dict_PDict encrypt_field_PDict encrypt_text_falsy)
  have d0: "decrypt_text ciph [] = ([], [])" by (simp add: decrypt_text_def)
  show "create_note ciph env (PDict kvs) st =
          (Inr \<lparr>id_v = new_id env, title = fst (decrypt_text ciph t), content = [],
                 timestamp_v = strftime (utcnow env)\<rparr>,
           st @ [\<lparr>id_n = new_id env, title_encrypted = t, content_encrypted = [],
                   timestamp = utcnow env\<rparr>],
           snd (decrypt_text ciph t))"
    by (simp add: create_note_accepted [OF f] d0)
  assume i: "note_id \<in> id_n ` set st"
  show "update_note ciph env note_id (PDict kvs) st =
              (Inr \<lparr>id_v = note_id, title = fst (decrypt_text ciph t), content = [],
                     timestamp_v = strftime (utcnow env)\<rparr>,
               map (\<lambda>n. if id_n n = note_id
                         then n\<lparr>title_encrypted := t, content_encrypted := [],
                                timestamp := utcnow env\<rparr>
                         else n) st,
               snd (decrypt_text ciph t))"
    using update_note_present [OF i f] by (simp add: d0)
qed simp_all

text \<open>
  The theorem at the body with a \<open>null\<close> title and an empty content, on a table
  whose row 1 has the sample ciphertext in both fields.
\<close>

theorem falsy_field_stored_empty_witness:
  "map_of [(ascii ''title'', PNone), (ascii ''content'', PStr [])] (ascii ''title'') = Some PNone
   \<and> map_of [(ascii ''title'', PNone), (ascii ''content'', PStr [])] (ascii ''content'')
       = Some (PStr [])
   \<and> encrypt_field stub_fernet (entropy_content stub_env)
        (PDict [(ascii ''title'', PNone), (ascii ''content'', PStr [])]) (ascii ''content'')
        (PStr []) = Inr []
   \<and> encrypt_field stub_fernet (entropy_title stub_env)
        (PDict [(ascii ''title'', PNone), (ascii ''content'', PStr [])]) (ascii ''title'')
        (PStr (ascii ''Untitled'')) = Inr []
   \<and> (1::int) \<in> id_n ` set [\<lparr>id_n = 1, title_encrypted = sample_ciphertext,
          content_encrypted = sample_ciphertext, timestamp = (2026, 11, 3, 0, 0, 0, 0)\<rparr>]
   \<and> create_note stub_fernet (stub_env\<lparr>new_id := 2\<rparr>)
        (PDict [(ascii ''title'', PNone), (ascii ''content'', PStr [])])
        [\<lparr>id_n = 1, title_encrypted = sample_ciphertext,
           content_encrypted = sample_ciphertext, timestamp = (2026, 11, 3, 0, 0, 0, 0)\<rparr>]
      = (Inr \<lparr>id_v = 2, title = [], content = [],
               timestamp_v = strftime (utcnow stub_env)\<rparr>,
         [\<lparr>id_n = 1, title_encrypted = sample_ciphertext,
            content_encrypted = sample_ciphertext, timestamp = (2026, 11, 3, 0, 0, 0, 0)\<rparr>,
          \<lparr>id_n = 2, title_encrypted = [], content_encrypted = [],
            timestamp = utcnow stub_env\<rparr>],
         [])
   \<and> update_note stub_fernet (stub_env\<lparr>new_id := 2\<rparr>) 1
        (PDict [(ascii ''title'', PNone), (ascii ''content'', PStr [])])
        [\<lparr>id_n = 1, title_encrypted = sample_ciphertext,
           content_encrypted = sample_ciphertext, timestamp = (2026, 11, 3, 0, 0, 0, 0)\<rparr>]
      = (Inr \<lparr>id_v = 1, title = [], content = [],
               timestamp_v = strftime (utcnow stub_env)\<rparr>,
         [\<lparr>id_n = 1, title_encrypted = [], content_encrypted = [],
            timestamp = utcnow stub_env\<rparr>],
         [])"
proof -
  have k: "ascii ''content'' \<noteq> ascii ''title''" by (simp add: ascii_def)
  have h1: "map_of [(ascii ''title'', PNone), (ascii ''content'', PStr [])] (ascii ''title'')
      = Some PNone"
    by simp
  have h2: "map_of [(ascii ''title'', PNone), (ascii ''content'', PStr [])] (ascii ''content'')
       = Some (PStr [])"
    using k by simp
  have h3: "encrypt_field stub_fernet (entropy_content (stub_env\<lparr>new_id := 2\<rparr>))
        (PDict [(ascii ''title'', PNone), (ascii ''content'', PStr [])]) (ascii ''content'')
        (PStr []) = Inr []"
    unfolding encrypt_field_PDict h2 by (simp add: encrypt_text_falsy)
  have h4: "encrypt_field stub_fernet (entropy_title (stub_env\<lparr>new_id := 2\<rparr>))
        (PDict [(ascii ''title'', PNone), (ascii ''content'', PStr [])]) (ascii ''title'')
        (PStr (ascii ''Untitled'')) = Inr []"
    unfolding encrypt_field_PDict h1 by (simp add: encrypt_text_falsy)
  have h5: "(1::int) \<in> id_n ` set [\<lparr>id_n = 1, title_encrypted = sample_ciphertext,
          content_encrypted = sample_ciphertext, timestamp = (2026, 11, 3, 0, 0, 0, 0)\<rparr>]"
    by simp
  have d0: "decrypt_text stub_fernet [] = ([], [])" by (simp add: decrypt_text_def)
  note t = falsy_field_stored_empty [of "[(ascii ''title'', PNone), (ascii ''content'', PStr [])]"
      PNone stub_fernet "stub_env\<lparr>new_id := 2\<rparr>" "[]"
      "[\<lparr>id_n = 1, title_encrypted = sample_ciphertext,
           content_encrypted = sample_ciphertext, timestamp = (2026, 11, 3, 0, 0, 0, 0)\<rparr>]"
      1, THEN conjunct1, rule_format, OF conjI [OF h1 conjI [OF disjI1 [OF refl] h3]]]
  show ?thesis
    using h1 h2 h3 h4 h5 t [THEN conjunct1] t [THEN conjunct2, rule_format, OF h5]
    by (simp add: d0 stub_env_def)
qed

end
